theory Spec2Isabelle
  imports Main
begin

section \<open>Python values used by jdump.py\<close>

text \<open>
  The exceptions that the code of \<^verbatim>\<open>jdump.py\<close> and the library calls it makes can raise.
  \<^verbatim>\<open>IOError\<close> is the exception of \<^verbatim>\<open>raise IOError(f'Mode "{mode}" not supported')\<close>;
  \<^verbatim>\<open>AssertionError\<close> is what a failed \<^verbatim>\<open>assert\<close> raises; \<^verbatim>\<open>JSONDecodeError\<close> and
  \<^verbatim>\<open>ValueError\<close> come from \<^verbatim>\<open>json.loads\<close> and from \<^verbatim>\<open>json.dumps(..., allow_nan=False)\<close>;
  \<^verbatim>\<open>AttributeError\<close> is raised by a method call on an object that has no such method.
\<close>

datatype error =
    StopIteration
  | AssertionError
  | JSONDecodeError
  | ValueError
  | AttributeError
  | IOError
  | FileNotFoundError
  | FileExistsError
  | BadGzipFile
  | UnicodeDecodeError

text \<open>
  A Python \<^verbatim>\<open>str\<close> is a \<^typ>\<open>string\<close>; every \<^typ>\<open>char\<close> stands for the code point of the
  same number (U+0000 to U+00FF).
\<close>

abbreviation LF :: char where "LF \<equiv> CHR 0x0A"
abbreviation CR :: char where "CR \<equiv> CHR 0x0D"

text \<open>\<^verbatim>\<open>line.rstrip('\r\n')\<close>: every trailing carriage return and line feed is removed.\<close>

definition rstrip_crlf :: "string \<Rightarrow> string" where
  "rstrip_crlf s = rev (dropWhile (\<lambda>c. c = CR \<or> c = LF) (rev s))"

text \<open>\<^verbatim>\<open>str.isspace\<close> on one character, for the code points below 256.\<close>

definition py_isspace :: "char \<Rightarrow> bool" where
  "py_isspace c = (c \<in> set [CHR 0x09, CHR 0x0A, CHR 0x0B, CHR 0x0C, CHR 0x0D,
                             CHR 0x1C, CHR 0x1D, CHR 0x1E, CHR 0x1F, CHR 0x20,
                             CHR 0x85, CHR 0xA0])"

text \<open>\<^verbatim>\<open>s.strip()\<close>: leading and trailing whitespace removed.\<close>

definition py_strip :: "string \<Rightarrow> string" where
  "py_strip s = rev (dropWhile py_isspace (rev (dropWhile py_isspace s)))"

text \<open>
  The lines that iterating over a text stream yields: the text is cut after every line
  feed, and each line keeps its line feed.
\<close>

fun readlines :: "string \<Rightarrow> string list" where
  "readlines [] = []"
| "readlines (c # cs) =
     (if c = LF then [c] # readlines cs
      else (case readlines cs of [] \<Rightarrow> [[c]] | l # ls \<Rightarrow> (c # l) # ls))"

section \<open>The generator \<^verbatim>\<open>_reader\<close>\<close>

text \<open>
  \<^verbatim>\<open>file_obj\<close> is any iterable of lines. \<open>Lines ls\<close> yields the lines \<open>ls\<close> and then
  ends; \<open>Broken e\<close> raises \<open>e\<close> when a line is asked from it (a stream whose bytes cannot
  be decompressed or decoded).
\<close>

datatype line_iter = Lines "string list" | Broken error

text \<open>
  A generator object is suspended (before its first resumption, or at its \<^verbatim>\<open>yield\<close>,
  where \<^verbatim>\<open>json_buffer\<close> is empty either way) or finished. The suspended generator holds
  its separator and what is left of \<^verbatim>\<open>file_obj\<close>.
\<close>

datatype generator = Suspended string line_iter | Finished

definition reader :: "line_iter \<Rightarrow> string \<Rightarrow> generator" where
  "reader file_obj separator = Suspended separator file_obj"

text \<open>
  The \<^verbatim>\<open>for\<close> loop of \<^verbatim>\<open>_reader\<close> over the lines left, run until the next
  \<^verbatim>\<open>yield\<close> or until the generator ends: by \<^verbatim>\<open>StopIteration\<close> when the closing
  \<^verbatim>\<open>assert\<close> holds, by \<^verbatim>\<open>AssertionError\<close> when it fails.
\<close>

fun reader_loop :: "string \<Rightarrow> string list \<Rightarrow> string list \<Rightarrow> (error + string list) \<times> generator" where
  "reader_loop separator json_buffer [] =
     (if py_strip (concat json_buffer) \<noteq> [] then (Inl AssertionError, Finished)
      else (Inl StopIteration, Finished))"
| "reader_loop separator json_buffer (line # rest) =
     (if rstrip_crlf line \<noteq> separator
      then reader_loop separator (json_buffer @ [line]) rest
      else (Inr json_buffer, Suspended separator (Lines rest)))"

text \<open>
  \<^verbatim>\<open>next(gen)\<close> on the generator object. A finished generator raises
  \<^verbatim>\<open>StopIteration\<close>; an exception of the stream ends the generator.
\<close>

definition reader_next :: "generator \<Rightarrow> (error + string list) \<times> generator" where
  "reader_next g =
     (case g of
        Finished \<Rightarrow> (Inl StopIteration, Finished)
      | Suspended separator (Broken e) \<Rightarrow> (Inl e, Finished)
      | Suspended separator (Lines ls) \<Rightarrow> reader_loop separator [] ls)"

fun gen_size :: "generator \<Rightarrow> nat" where
  "gen_size Finished = 0"
| "gen_size (Suspended separator (Broken e)) = 1"
| "gen_size (Suspended separator (Lines ls)) = Suc (length ls)"

lemma reader_loop_decreases:
  "reader_loop separator buf ls = (res, g) \<Longrightarrow> gen_size g \<le> length ls"
  by (induction ls arbitrary: buf) (auto split: if_splits intro: le_SucI)

lemma reader_next_decreases:
  "reader_next g = (Inr chunk, g') \<Longrightarrow> gen_size g' < gen_size g"
proof (cases g)
  case (Suspended separator it)
  assume r: "reader_next g = (Inr chunk, g')"
  show ?thesis
  proof (cases it)
    case (Lines ls)
    with r Suspended have "reader_loop separator [] ls = (Inr chunk, g')"
      by (simp add: reader_next_def)
    from reader_loop_decreases [OF this] Suspended Lines show ?thesis by simp
  next
    case (Broken e)
    with r Suspended show ?thesis by (simp add: reader_next_def)
  qed
next
  case Finished
  assume "reader_next g = (Inr chunk, g')"
  with Finished show ?thesis by (simp add: reader_next_def)
qed

text \<open>
  The generator resumed until it ends: the chunks it yields, and the exception that ends
  it.
\<close>

function reader_drain :: "generator \<Rightarrow> string list list \<times> error" where
  "reader_drain g =
     (case reader_next g of
        (Inl e, g') \<Rightarrow> ([], e)
      | (Inr chunk, g') \<Rightarrow> (case reader_drain g' of (chunks, e) \<Rightarrow> (chunk # chunks, e)))"
  by pat_completeness auto
termination
  by (relation "measure gen_size") (auto dest: reader_next_decreases [OF sym])

declare reader_drain.simps [simp del]

section \<open>The library calls: \<^verbatim>\<open>json.dumps\<close>, \<^verbatim>\<open>json.loads\<close>, \<^verbatim>\<open>hash\<close>\<close>

text \<open>
  The \<^verbatim>\<open>indent\<close> argument of \<^verbatim>\<open>json.dumps\<close>: \<^verbatim>\<open>None\<close>, an integer or a string.
\<close>

datatype indent = IndentNone | IndentInt int | IndentStr string

text \<open>
  \<^verbatim>\<open>jdump.py\<close> calls three functions of Python's library, which are not code of the
  repository; they are parameters of the model. \<open>'d\<close> is the type of the JSON documents,
  \<open>'h\<close> the type of hash values.
  \<^item> \<open>json_dumps i d\<close> is
    \<^verbatim>\<open>json.dumps(d, indent=i, sort_keys=True, ensure_ascii=False, allow_nan=False)\<close>,
    the only way the code calls \<^verbatim>\<open>json.dumps\<close>;
  \<^item> \<open>json_loads s\<close> is \<^verbatim>\<open>json.loads(s)\<close>;
  \<^item> \<open>hash s\<close> is \<^verbatim>\<open>hash(s)\<close> on a \<^verbatim>\<open>str\<close>.
\<close>

record ('d, 'h) library =
  json_dumps :: "indent \<Rightarrow> 'd \<Rightarrow> error + string"
  json_loads :: "string \<Rightarrow> error + 'd"
  hash :: "string \<Rightarrow> 'h"

section \<open>\<^verbatim>\<open>DumpReader\<close>\<close>

text \<open>
  The attribute \<^verbatim>\<open>file_obj\<close> is the stream the generator \<^verbatim>\<open>_reader\<close> consumes; the model
  keeps it inside the generator. \<^verbatim>\<open>seen\<close> is \<^verbatim>\<open>None\<close> or a set of hash values.
\<close>

record 'h DumpReader =
  r_reader :: generator
  r_obj_num :: nat
  r_close :: bool
  r_seen :: "'h set option"

definition DumpReader_init :: "line_iter \<Rightarrow> string \<Rightarrow> bool \<Rightarrow> bool \<Rightarrow> 'h DumpReader" where
  "DumpReader_init f separator unique close =
     \<lparr> r_reader = reader f separator, r_obj_num = 0, r_close = close,
       r_seen = (if unique then Some {} else None) \<rparr>"

text \<open>\<^verbatim>\<open>json.loads(''.join(next(self._reader)))\<close>\<close>

definition next_json :: "('d, 'h) library \<Rightarrow> generator \<Rightarrow> (error + 'd) \<times> generator" where
  "next_json lib g =
     (case reader_next g of
        (Inl e, g') \<Rightarrow> (Inl e, g')
      | (Inr chunk, g') \<Rightarrow> (json_loads lib (concat chunk), g'))"

text \<open>
  \<^verbatim>\<open>hash(json.dumps(json_obj, sort_keys=True, ensure_ascii=False, allow_nan=False))\<close>
\<close>

definition canonical_hash :: "('d, 'h) library \<Rightarrow> 'd \<Rightarrow> error + 'h" where
  "canonical_hash lib json_obj =
     (case json_dumps lib IndentNone json_obj of
        Inl e \<Rightarrow> Inl e
      | Inr s \<Rightarrow> Inr (hash lib s))"

lemma next_json_no_increase:
  "next_json lib g = (res, g') \<Longrightarrow> gen_size g' \<le> gen_size g"
  by (auto simp: next_json_def reader_next_def
           split: prod.splits sum.splits generator.splits line_iter.splits
           dest: reader_loop_decreases)

lemma next_json_decreases:
  "next_json lib g = (Inr obj, g') \<Longrightarrow> gen_size g' < gen_size g"
  by (auto simp: next_json_def split: prod.splits sum.splits dest: reader_next_decreases)

text \<open>The \<^verbatim>\<open>while json_hash in self.seen\<close> loop of \<^verbatim>\<open>__next__\<close>.\<close>

function skip_seen ::
  "('d, 'h) library \<Rightarrow> 'h set \<Rightarrow> 'd \<Rightarrow> 'h \<Rightarrow> generator \<Rightarrow> (error + 'd \<times> 'h) \<times> generator" where
  "skip_seen lib seen json_obj json_hash g =
     (if json_hash \<in> seen
      then (case next_json lib g of
              (Inl e, g') \<Rightarrow> (Inl e, g')
            | (Inr json_obj', g') \<Rightarrow>
                (case canonical_hash lib json_obj' of
                   Inl e \<Rightarrow> (Inl e, g')
                 | Inr json_hash' \<Rightarrow> skip_seen lib seen json_obj' json_hash' g'))
      else (Inr (json_obj, json_hash), g))"
  by pat_completeness auto
termination
  by (relation "measure (\<lambda>(lib, seen, json_obj, json_hash, g). gen_size g)")
     (auto dest: next_json_decreases [OF sym])

declare skip_seen.simps [simp del]

text \<open>\<^verbatim>\<open>DumpReader.__next__\<close>: the value returned or the exception raised, and the reader after the call.\<close>

definition DumpReader_next :: "('d, 'h) library \<Rightarrow> 'h DumpReader \<Rightarrow> (error + 'd) \<times> 'h DumpReader" where
  "DumpReader_next lib r =
     (case next_json lib (r_reader r) of
        (Inl e, g) \<Rightarrow> (Inl e, r\<lparr>r_reader := g\<rparr>)
      | (Inr json_obj, g) \<Rightarrow>
          (case r_seen r of
             None \<Rightarrow> (Inr json_obj, r\<lparr>r_reader := g, r_obj_num := r_obj_num r + 1\<rparr>)
           | Some seen \<Rightarrow>
               (case canonical_hash lib json_obj of
                  Inl e \<Rightarrow> (Inl e, r\<lparr>r_reader := g\<rparr>)
                | Inr json_hash \<Rightarrow>
                    (case skip_seen lib seen json_obj json_hash g of
                       (Inl e, g') \<Rightarrow> (Inl e, r\<lparr>r_reader := g'\<rparr>)
                     | (Inr (json_obj', json_hash'), g') \<Rightarrow>
                         (Inr json_obj',
                          r\<lparr>r_reader := g', r_seen := Some (insert json_hash' seen),
                            r_obj_num := r_obj_num r + 1\<rparr>)))))"

lemma skip_seen_decreases:
  "skip_seen lib seen json_obj json_hash g = (res, g') \<Longrightarrow> gen_size g' \<le> gen_size g"
proof (induction lib seen json_obj json_hash g rule: skip_seen.induct)
  case (1 lib seen json_obj json_hash g)
  show ?case
  proof (cases "json_hash \<in> seen")
    case False
    with "1.prems" show ?thesis by (simp add: skip_seen.simps)
  next
    case True
    obtain x g1 where nj: "next_json lib g = (x, g1)" by (cases "next_json lib g")
    show ?thesis
    proof (cases x)
      case (Inl e)
      with True nj "1.prems" have "g' = g1" by (simp add: skip_seen.simps)
      moreover have "gen_size g1 \<le> gen_size g"
        using nj by (rule next_json_no_increase)
      ultimately show ?thesis by simp
    next
      case (Inr obj')
      with nj have lt: "gen_size g1 < gen_size g" by (auto dest: next_json_decreases)
      show ?thesis
      proof (cases "canonical_hash lib obj'")
        case (Inl e)
        with True nj Inr "1.prems" have "g' = g1" by (simp add: skip_seen.simps)
        with lt show ?thesis by simp
      next
        case h: (Inr h')
        with True nj Inr "1.prems" have "skip_seen lib seen obj' h' g1 = (res, g')"
          by (simp add: skip_seen.simps)
        from "1.IH" [OF True nj [symmetric] Inr h this] lt show ?thesis by simp
      qed
    qed
  qed
qed

lemma DumpReader_next_decreases:
  "DumpReader_next lib r = (Inr obj, r') \<Longrightarrow> gen_size (r_reader r') < gen_size (r_reader r)"
  by (auto simp: DumpReader_next_def split: prod.splits sum.splits option.splits
           dest!: next_json_decreases skip_seen_decreases)

text \<open>
  \<^verbatim>\<open>DumpReader.read\<close>. Both loops append to \<^verbatim>\<open>ret\<close> and end at \<^verbatim>\<open>StopIteration\<close>; any
  other exception leaves \<^verbatim>\<open>read\<close>.
\<close>

function read_all ::
  "('d, 'h) library \<Rightarrow> 'h DumpReader \<Rightarrow> 'd list \<Rightarrow> (error + 'd list) \<times> 'h DumpReader" where
  "read_all lib r ret =
     (case DumpReader_next lib r of
        (Inl e, r') \<Rightarrow> (if e = StopIteration then (Inr ret, r') else (Inl e, r'))
      | (Inr obj, r') \<Rightarrow> read_all lib r' (ret @ [obj]))"
  by pat_completeness auto
termination
  by (relation "measure (\<lambda>(lib, r, ret). gen_size (r_reader r))")
     (auto dest: DumpReader_next_decreases [OF sym])

declare read_all.simps [simp del]

fun read_upto ::
  "('d, 'h) library \<Rightarrow> nat \<Rightarrow> 'h DumpReader \<Rightarrow> 'd list \<Rightarrow> (error + 'd list) \<times> 'h DumpReader" where
  "read_upto lib 0 r ret = (Inr ret, r)"
| "read_upto lib (Suc n) r ret =
     (case DumpReader_next lib r of
        (Inl e, r') \<Rightarrow> (if e = StopIteration then (Inr ret, r') else (Inl e, r'))
      | (Inr obj, r') \<Rightarrow> read_upto lib n r' (ret @ [obj]))"

definition DumpReader_read ::
  "('d, 'h) library \<Rightarrow> 'h DumpReader \<Rightarrow> int \<Rightarrow> (error + 'd list) \<times> 'h DumpReader" where
  "DumpReader_read lib r n = (if n \<ge> 0 then read_upto lib (nat n) r [] else read_all lib r [])"

section \<open>\<^verbatim>\<open>DumpWriter\<close>\<close>

text \<open>
  The object a writer writes to: a text stream, with the text written to it so far, or
  (as \<^verbatim>\<open>DumpOpener\<close> can pass it) a \<^verbatim>\<open>bool\<close>, which has no \<^verbatim>\<open>write\<close>.
\<close>

datatype out_obj = OutStream string | PyBool bool

definition file_write :: "out_obj \<Rightarrow> string \<Rightarrow> error + out_obj" where
  "file_write f s =
     (case f of OutStream written \<Rightarrow> Inr (OutStream (written @ s)) | PyBool b \<Rightarrow> Inl AttributeError)"

record 'h DumpWriter =
  w_separator_blob :: string
  w_file_obj :: out_obj
  w_obj_num :: nat
  w_close :: bool
  w_indent :: indent
  w_seen :: "'h set option"

definition DumpWriter_init :: "out_obj \<Rightarrow> string \<Rightarrow> bool \<Rightarrow> indent \<Rightarrow> 'h DumpWriter" where
  "DumpWriter_init f separator unique ind =
     \<lparr> w_separator_blob = [LF] @ separator @ [LF], w_file_obj = f, w_obj_num = 0,
       w_close = False, w_indent = ind, w_seen = (if unique then Some {} else None) \<rparr>"

text \<open>
  The last three statements of \<^verbatim>\<open>DumpWriter.write\<close>:
  \<^verbatim>\<open>self.file_obj.write(formatted_json + self.separator_blob); self.obj_num += 1; return True\<close>
\<close>

definition write_blob :: "'h DumpWriter \<Rightarrow> string \<Rightarrow> (error + bool) \<times> 'h DumpWriter" where
  "write_blob w formatted_json =
     (case file_write (w_file_obj w) (formatted_json @ w_separator_blob w) of
        Inl e \<Rightarrow> (Inl e, w)
      | Inr f \<Rightarrow> (Inr True, w\<lparr>w_file_obj := f, w_obj_num := w_obj_num w + 1\<rparr>))"

definition DumpWriter_write ::
  "('d, 'h) library \<Rightarrow> 'h DumpWriter \<Rightarrow> 'd \<Rightarrow> (error + bool) \<times> 'h DumpWriter" where
  "DumpWriter_write lib w json_obj =
     (case json_dumps lib (w_indent w) json_obj of
        Inl e \<Rightarrow> (Inl e, w)
      | Inr formatted_json \<Rightarrow>
          (case w_seen w of
             None \<Rightarrow> write_blob w formatted_json
           | Some seen \<Rightarrow>
               (if hash lib formatted_json \<in> seen then (Inr False, w)
                else write_blob (w\<lparr>w_seen := Some (insert (hash lib formatted_json) seen)\<rparr>)
                       formatted_json)))"

text \<open>\<^verbatim>\<open>sum(self.write(obj) for obj in json_iterator)\<close>, the running sum in \<open>count\<close>.\<close>

fun writemany_from ::
  "('d, 'h) library \<Rightarrow> 'h DumpWriter \<Rightarrow> 'd list \<Rightarrow> nat \<Rightarrow> (error + nat) \<times> 'h DumpWriter" where
  "writemany_from lib w [] count = (Inr count, w)"
| "writemany_from lib w (obj # json_iterator) count =
     (case DumpWriter_write lib w obj of
        (Inl e, w') \<Rightarrow> (Inl e, w')
      | (Inr b, w') \<Rightarrow> writemany_from lib w' json_iterator (count + (if b then 1 else 0)))"

definition DumpWriter_writemany ::
  "('d, 'h) library \<Rightarrow> 'h DumpWriter \<Rightarrow> 'd list \<Rightarrow> (error + nat) \<times> 'h DumpWriter" where
  "DumpWriter_writemany lib w json_iterator = writemany_from lib w json_iterator 0"

section \<open>Files\<close>

text \<open>
  What \<^verbatim>\<open>DumpOpener\<close> needs of the file system: a map from (absolute, normalised) paths
  to file contents. A content is the sequence of what was written to the file: runs of
  plain text (encoded as UTF-8) and gzip members (each the compressed form of a text).
  Directories, permissions and other failures of the operating system are not modelled.
\<close>

datatype segment = Text string | GzipMember string

type_synonym content = "segment list"

type_synonym filesystem = "string \<Rightarrow> content option"

text \<open>\<^verbatim>\<open>os.path.exists(path)\<close>\<close>

definition path_exists :: "filesystem \<Rightarrow> string \<Rightarrow> bool" where
  "path_exists fs p = (fs p \<noteq> None)"

text \<open>\<^verbatim>\<open>io.open(p, mode='wt')\<close> and \<^verbatim>\<open>io.open(p, mode='wb')\<close> create the file or empty it.\<close>

definition open_truncate :: "filesystem \<Rightarrow> string \<Rightarrow> filesystem" where
  "open_truncate fs p = fs(p \<mapsto> [])"

text \<open>
  \<^verbatim>\<open>io.open(p, mode='at')\<close> and \<^verbatim>\<open>gzip.open(p, mode='at')\<close> create the file when it does not
  exist and leave an existing file as it is.
\<close>

definition open_append :: "filesystem \<Rightarrow> string \<Rightarrow> filesystem" where
  "open_append fs p = (case fs p of None \<Rightarrow> fs(p \<mapsto> []) | Some c \<Rightarrow> fs)"

text \<open>Closing a stream opened for writing puts what was written at the end of its file.\<close>

definition flush :: "filesystem \<Rightarrow> string \<Rightarrow> content \<Rightarrow> filesystem" where
  "flush fs p segs = (case fs p of None \<Rightarrow> fs | Some c \<Rightarrow> fs(p \<mapsto> c @ segs))"

definition text_segment :: "string \<Rightarrow> content" where
  "text_segment s = (if s = [] then [] else [Text s])"

text \<open>\<^verbatim>\<open>os.remove(p)\<close> and \<^verbatim>\<open>os.rename(src, dst)\<close>\<close>

definition os_remove :: "filesystem \<Rightarrow> string \<Rightarrow> error + filesystem" where
  "os_remove fs p = (case fs p of None \<Rightarrow> Inl FileNotFoundError | Some c \<Rightarrow> Inr (fs(p := None)))"

definition os_rename :: "filesystem \<Rightarrow> string \<Rightarrow> string \<Rightarrow> error + filesystem" where
  "os_rename fs src dst =
     (case fs src of None \<Rightarrow> Inl FileNotFoundError | Some c \<Rightarrow> Inr ((fs(src := None))(dst \<mapsto> c)))"

text \<open>
  \<^verbatim>\<open>f.read(2) == b'\x1f\x8b'\<close> on the file opened in mode \<^verbatim>\<open>'rb'\<close>: a gzip member starts
  with these two bytes, and no UTF-8 text does (\<^verbatim>\<open>0x8b\<close> is a continuation byte).
\<close>

definition gzip_magic :: "content \<Rightarrow> bool" where
  "gzip_magic c = (case c of GzipMember s # rest \<Rightarrow> True | _ \<Rightarrow> False)"

text \<open>
  Reading a text stream with Python's universal newlines (the default of \<^verbatim>\<open>io.open\<close> and
  \<^verbatim>\<open>gzip.open\<close> in text mode): \<^verbatim>\<open>'\r\n'\<close> and \<^verbatim>\<open>'\r'\<close> are read as \<^verbatim>\<open>'\n'\<close>.
\<close>

fun universal_newlines :: "string \<Rightarrow> string" where
  "universal_newlines [] = []"
| "universal_newlines (c # cs) =
     (if c = CR
      then LF # (case cs of [] \<Rightarrow> [] | d # ds \<Rightarrow> if d = LF then universal_newlines ds else universal_newlines cs)
      else c # universal_newlines cs)"

fun plain_text :: "content \<Rightarrow> string option" where
  "plain_text [] = Some []"
| "plain_text (Text s # rest) = map_option (\<lambda>t. s @ t) (plain_text rest)"
| "plain_text (GzipMember s # rest) = None"

fun gunzip :: "content \<Rightarrow> string option" where
  "gunzip [] = Some []"
| "gunzip (GzipMember s # rest) = map_option (\<lambda>t. s @ t) (gunzip rest)"
| "gunzip (Text s # rest) = None"

text \<open>
  The stream of \<^verbatim>\<open>io.open(p, mode='rt')\<close> and of \<^verbatim>\<open>gzip.open(p, mode='rt')\<close> on a file with
  content \<open>c\<close>. A file that is not wholly of the transport it is opened with raises when
  it is read (the model raises at the first line).
\<close>

definition io_open_rt :: "content \<Rightarrow> line_iter" where
  "io_open_rt c =
     (case plain_text c of
        None \<Rightarrow> Broken UnicodeDecodeError
      | Some s \<Rightarrow> Lines (readlines (universal_newlines s)))"

definition gzip_open_rt :: "content \<Rightarrow> line_iter" where
  "gzip_open_rt c =
     (case gunzip c of
        None \<Rightarrow> Broken BadGzipFile
      | Some s \<Rightarrow> Lines (readlines (universal_newlines s)))"

section \<open>Strings of paths and modes\<close>

text \<open>\<^verbatim>\<open>sub in s\<close> on two strings: \<open>sub\<close> occurs in \<open>s\<close> as a substring.\<close>

fun py_in :: "string \<Rightarrow> string \<Rightarrow> bool" where
  "py_in sub [] = (sub = [])"
| "py_in sub (c # cs) = (take (length sub) (c # cs) = sub \<or> py_in sub cs)"

text \<open>\<^verbatim>\<open>s.endswith(suffix)\<close>\<close>

definition endswith :: "string \<Rightarrow> string \<Rightarrow> bool" where
  "endswith s suffix = (length suffix \<le> length s \<and> drop (length s - length suffix) s = suffix)"

text \<open>\<^verbatim>\<open>os.path.basename(p)\<close>: what follows the last slash.\<close>

definition basename :: "string \<Rightarrow> string" where
  "basename p = rev (takeWhile (\<lambda>c. c \<noteq> CHR ''/'') (rev p))"

section \<open>\<^verbatim>\<open>DumpOpener\<close>\<close>

text \<open>
  \<^verbatim>\<open>self.gz\<close> is \<^verbatim>\<open>None\<close>, a \<^verbatim>\<open>bool\<close>, or the \<^verbatim>\<open>io.TextIOWrapper\<close> around the
  \<^verbatim>\<open>gzip.GzipFile\<close> that compresses into \<^verbatim>\<open>self.file_obj\<close>.
\<close>

datatype gz_attr = GzNone | GzBool bool | GzWrapper

text \<open>
  \<^verbatim>\<open>self.file_obj\<close>: the object returned by \<^verbatim>\<open>io.open\<close> in a text mode, by \<^verbatim>\<open>io.open\<close> in
  mode \<^verbatim>\<open>'wb'\<close>, or by \<^verbatim>\<open>gzip.open\<close> in a text mode, each with the path it was opened on.
\<close>

datatype file_handle = PlainText string | Binary string | GzipText string

fun handle_path :: "file_handle \<Rightarrow> string" where
  "handle_path (PlainText p) = p"
| "handle_path (Binary p) = p"
| "handle_path (GzipText p) = p"

datatype 'h rw_obj = Reader "'h DumpReader" | Writer "'h DumpWriter"

record 'h DumpOpener =
  o_mode :: string
  o_path :: string
  o_temp_path :: "string option"
  o_file_obj :: file_handle
  o_gz :: gz_attr
  o_rw_obj :: "'h rw_obj"

text \<open>
  The branch \<^verbatim>\<open>if mode in 'ra'\<close> of \<^verbatim>\<open>__init__\<close> (read/append mode). \<open>gz\<close> is the
  argument \<^verbatim>\<open>gz\<close>: \<^verbatim>\<open>None\<close>, or a value that is true or false. The reader and the writer
  are made with the default separator, and the writer with the default indent.
\<close>

definition open_read_append ::
  "filesystem \<Rightarrow> string \<Rightarrow> string \<Rightarrow> bool option \<Rightarrow> bool \<Rightarrow> (error + 'h DumpOpener) \<times> filesystem" where
  "open_read_append fs path mode gz unique =
     (case (case gz of
              None \<Rightarrow> (case fs path of
                         None \<Rightarrow> Inl FileNotFoundError
                       | Some c \<Rightarrow> Inr (gzip_magic c))
            | Some b \<Rightarrow> Inr b) of
        Inl e \<Rightarrow> (Inl e, fs)
      | Inr use_gzip \<Rightarrow>
          (if mode = ''r'' then
             (case fs path of
                None \<Rightarrow> (Inl FileNotFoundError, fs)
              | Some c \<Rightarrow>
                  (Inr \<lparr> o_mode = mode, o_path = path, o_temp_path = None,
                         o_file_obj = (if use_gzip then GzipText path else PlainText path),
                         o_gz = GzNone,
                         o_rw_obj = Reader (DumpReader_init
                                      (if use_gzip then gzip_open_rt c else io_open_rt c)
                                      ''--'' unique False) \<rparr>,
                   fs))
           else if mode \<noteq> ''a'' then (Inl AssertionError, fs)
           else
             (Inr \<lparr> o_mode = mode, o_path = path, o_temp_path = None,
                    o_file_obj = (if use_gzip then GzipText path else PlainText path),
                    o_gz = GzNone,
                    o_rw_obj = Writer (DumpWriter_init (OutStream []) ''--'' unique (IndentInt 4)) \<rparr>,
              open_append fs path)))"

text \<open>
  The \<^verbatim>\<open>else\<close> branch of \<^verbatim>\<open>__init__\<close> (write/create mode). \<open>gz1\<close> and \<open>gz2\<close> are
  \<^verbatim>\<open>self.gz\<close> after the two tests of the file name, \<open>gz3\<close> is \<^verbatim>\<open>self.gz\<close> after the stream
  is opened. The writer is bound to \<^verbatim>\<open>self.file_obj\<close> when \<^verbatim>\<open>self.gz is None\<close>, and to
  \<^verbatim>\<open>self.gz\<close> otherwise.
\<close>

definition open_write_create ::
  "filesystem \<Rightarrow> string \<Rightarrow> string \<Rightarrow> bool option \<Rightarrow> bool \<Rightarrow> (error + 'h DumpOpener) \<times> filesystem" where
  "open_write_create fs path mode gz unique =
     (if \<not> py_in mode ''wx'' then (Inl AssertionError, fs)
      else if mode = ''x'' \<and> path_exists fs path then (Inl FileExistsError, fs)
      else
        (let filename = basename path;
             temp_path = path @ ''.partial'';
             filename1 = (if endswith filename ''.gz''
                          then take (length filename - 3) filename else filename);
             gz1 = (if endswith filename ''.gz'' then GzBool True else GzNone);
             gz2 = (if endswith filename1 ''gz'' then GzBool True else gz1);
             use_gzip = (case gz of None \<Rightarrow> gz2 = GzBool True | Some b \<Rightarrow> b);
             file_obj = (if use_gzip then Binary temp_path else PlainText temp_path);
             gz3 = (if use_gzip then GzWrapper else gz2);
             target = (case gz3 of
                         GzNone \<Rightarrow> OutStream []
                       | GzWrapper \<Rightarrow> OutStream []
                       | GzBool b \<Rightarrow> PyBool b)
         in (Inr \<lparr> o_mode = mode, o_path = path, o_temp_path = Some temp_path,
                   o_file_obj = file_obj, o_gz = gz3,
                   o_rw_obj = Writer (DumpWriter_init target ''--'' unique (IndentInt 4)) \<rparr>,
             open_truncate fs temp_path)))"

text \<open>
  \<^verbatim>\<open>DumpOpener.__init__(path, mode, gz, unique=unique)\<close> with the default encoding, on the file
  system \<open>fs\<close>: the opener or the exception raised, and the file system after the call.
  \<^verbatim>\<open>os.path.abspath\<close> is the identity on the paths of the model.
\<close>

definition DumpOpener_init ::
  "filesystem \<Rightarrow> string \<Rightarrow> string \<Rightarrow> bool option \<Rightarrow> bool \<Rightarrow> (error + 'h DumpOpener) \<times> filesystem" where
  "DumpOpener_init fs path mode gz unique =
     (if \<not> py_in mode ''rwax'' then (Inl IOError, fs)
      else if py_in mode ''ra'' then open_read_append fs path mode gz unique
      else open_write_create fs path mode gz unique)"

text \<open>The text written through the writer of the opener.\<close>

definition written_text :: "'h rw_obj \<Rightarrow> string" where
  "written_text rw =
     (case rw of
        Reader r \<Rightarrow> []
      | Writer w \<Rightarrow> (case w_file_obj w of OutStream s \<Rightarrow> s | PyBool b \<Rightarrow> []))"

text \<open>
  \<^verbatim>\<open>self.gz.close()\<close> and \<^verbatim>\<open>self.file_obj.close()\<close>. A \<^verbatim>\<open>bool\<close> has no \<^verbatim>\<open>close\<close>. Closing the
  gzip wrapper ends the gzip member in the file of \<^verbatim>\<open>self.file_obj\<close>; closing a text file
  puts the text written at its end; closing the stream of \<^verbatim>\<open>gzip.open(p, mode='at')\<close>
  ends the member it appended.
\<close>

definition close_streams :: "'h DumpOpener \<Rightarrow> filesystem \<Rightarrow> error + filesystem" where
  "close_streams st fs =
     (case o_gz st of
        GzBool b \<Rightarrow> Inl AttributeError
      | GzWrapper \<Rightarrow>
          Inr (flush fs (handle_path (o_file_obj st)) [GzipMember (written_text (o_rw_obj st))])
      | GzNone \<Rightarrow>
          (case o_file_obj st of
             PlainText p \<Rightarrow> Inr (flush fs p (text_segment (written_text (o_rw_obj st))))
           | Binary p \<Rightarrow> Inr fs
           | GzipText p \<Rightarrow>
               (case o_rw_obj st of
                  Reader r \<Rightarrow> Inr fs
                | Writer w \<Rightarrow> Inr (flush fs p [GzipMember (written_text (o_rw_obj st))]))))"

text \<open>\<^verbatim>\<open>DumpOpener.__exit__\<close>, on the file system as it is when the block is left.\<close>

definition DumpOpener_exit :: "'h DumpOpener \<Rightarrow> filesystem \<Rightarrow> (error + unit) \<times> filesystem" where
  "DumpOpener_exit st fs =
     (case close_streams st fs of
        Inl e \<Rightarrow> (Inl e, fs)
      | Inr fs1 \<Rightarrow>
          (case o_temp_path st of
             None \<Rightarrow> (Inr (), fs1)
           | Some temp_path \<Rightarrow>
               (if path_exists fs1 (o_path st) \<and> o_mode st = ''x''
                then (Inl FileExistsError, fs1)
                else
                  (case (if path_exists fs1 (o_path st) then os_remove fs1 (o_path st) else Inr fs1) of
                     Inl e \<Rightarrow> (Inl e, fs1)
                   | Inr fs2 \<Rightarrow>
                       (case os_rename fs2 temp_path (o_path st) of
                          Inl e \<Rightarrow> (Inl e, fs2)
                        | Inr fs3 \<Rightarrow> (Inr (), fs3))))))"

section \<open>\<^verbatim>\<open>dump\<close>\<close>

text \<open>
  \<^verbatim>\<open>with DumpOpener(path, mode=..., unique=unique) as f: return f.writemany(json_iterator)\<close>.
  \<^verbatim>\<open>__enter__\<close> returns \<^verbatim>\<open>self.rw_obj\<close>; \<^verbatim>\<open>__exit__\<close> runs when the block is left, by
  \<^verbatim>\<open>return\<close> or by an exception; it returns \<^verbatim>\<open>None\<close>, so an exception of the block is raised
  again after it, unless \<^verbatim>\<open>__exit__\<close> itself raises.
\<close>

definition dump ::
  "('d, 'h) library \<Rightarrow> filesystem \<Rightarrow> 'd list \<Rightarrow> string \<Rightarrow> bool \<Rightarrow> bool \<Rightarrow> (error + nat) \<times> filesystem" where
  "dump lib fs json_iterator path overwrite unique =
     (case DumpOpener_init fs path (if overwrite then ''w'' else ''x'') None unique of
        (Inl e, fs1) \<Rightarrow> (Inl e, fs1)
      | (Inr opener, fs1) \<Rightarrow>
          (case (case o_rw_obj opener of
                   Reader r \<Rightarrow> (Inl AttributeError, Reader r)
                 | Writer f \<Rightarrow>
                     (case DumpWriter_writemany lib f json_iterator of
                        (res, f') \<Rightarrow> (res, Writer f'))) of
             (res, rw) \<Rightarrow>
               (case DumpOpener_exit (opener\<lparr>o_rw_obj := rw\<rparr>) fs1 of
                  (Inl e, fs2) \<Rightarrow> (Inl e, fs2)
                | (Inr u, fs2) \<Rightarrow> (res, fs2))))"

section \<open>An instance of the library for the examples\<close>

text \<open>
  The theorems below hold for every library. Their examples are evaluated with the
  following instance, which follows CPython's \<^verbatim>\<open>json\<close> module on the documents made of
  \<^verbatim>\<open>None\<close>, booleans, integers, the three non-finite floats, strings, lists and dicts
  with string keys (a dict is the list of its items in insertion order). Finite floats
  are left out: \<open>ref_loads\<close> rejects a number with a fraction or an exponent, and an
  escape \<^verbatim>\<open>\uXXXX\<close> above U+00FF.
\<close>

datatype nonfinite = NaN | PosInfinity | NegInfinity

datatype json =
    JNull
  | JBool bool
  | JInt int
  | JNonFinite nonfinite
  | JString string
  | JList "json list"
  | JDict "(string \<times> json) list"

definition digit_char :: "nat \<Rightarrow> char" where
  "digit_char d = ''0123456789abcdef'' ! d"

function str_of_nat :: "nat \<Rightarrow> string" where
  "str_of_nat n = (if n < 10 then [digit_char n] else str_of_nat (n div 10) @ [digit_char (n mod 10)])"
  by pat_completeness auto
termination
  by (relation "measure id") auto

declare str_of_nat.simps [simp del]

definition str_of_int :: "int \<Rightarrow> string" where
  "str_of_int i = (if i < 0 then CHR ''-'' # str_of_nat (nat (- i)) else str_of_nat (nat i))"

text \<open>The backslash and the double quote.\<close>

abbreviation BSL :: char where "BSL \<equiv> CHR 0x5C"
abbreviation DQ :: char where "DQ \<equiv> CHR 0x22"

definition escape_char :: "char \<Rightarrow> string" where
  "escape_char c =
     (if c = DQ then [BSL, DQ]
      else if c = BSL then [BSL, BSL]
      else if c = LF then [BSL, CHR ''n'']
      else if c = CR then [BSL, CHR ''r'']
      else if c = CHR 0x09 then [BSL, CHR ''t'']
      else if c = CHR 0x08 then [BSL, CHR ''b'']
      else if c = CHR 0x0C then [BSL, CHR ''f'']
      else if (of_char c :: nat) < 32
        then [BSL, CHR ''u'', CHR ''0'', CHR ''0'', digit_char (of_char c div 16), digit_char (of_char c mod 16)]
      else [c])"

definition encode_basestring :: "string \<Rightarrow> string" where
  "encode_basestring s = [DQ] @ concat (map escape_char s) @ [DQ]"

fun join :: "string \<Rightarrow> string list \<Rightarrow> string" where
  "join sep [] = []"
| "join sep [x] = x"
| "join sep (x # y # ys) = x @ sep @ join sep (y # ys)"

fun str_less :: "string \<Rightarrow> string \<Rightarrow> bool" where
  "str_less [] [] = False"
| "str_less [] (y # ys) = True"
| "str_less (x # xs) [] = False"
| "str_less (x # xs) (y # ys) =
     ((of_char x :: nat) < of_char y \<or> (x = y \<and> str_less xs ys))"

fun insert_item :: "string \<times> 'a \<Rightarrow> (string \<times> 'a) list \<Rightarrow> (string \<times> 'a) list" where
  "insert_item kv [] = [kv]"
| "insert_item kv (x # xs) = (if str_less (fst x) (fst kv) then x # insert_item kv xs else kv # x # xs)"

definition sort_items :: "(string \<times> 'a) list \<Rightarrow> (string \<times> 'a) list" where
  "sort_items kvs = foldr insert_item kvs []"

definition indent_unit :: "indent \<Rightarrow> string option" where
  "indent_unit ind =
     (case ind of
        IndentNone \<Rightarrow> None
      | IndentInt n \<Rightarrow> Some (replicate (nat n) (CHR '' ''))
      | IndentStr s \<Rightarrow> Some s)"

definition newline_indent :: "string option \<Rightarrow> nat \<Rightarrow> string" where
  "newline_indent unit level =
     (case unit of None \<Rightarrow> [] | Some u \<Rightarrow> LF # concat (replicate level u))"

definition item_separator :: "string option \<Rightarrow> string" where
  "item_separator unit = (case unit of None \<Rightarrow> '', '' | Some u \<Rightarrow> '','')"

fun encode :: "string option \<Rightarrow> nat \<Rightarrow> json \<Rightarrow> string" where
  "encode unit level JNull = ''null''"
| "encode unit level (JBool b) = (if b then ''true'' else ''false'')"
| "encode unit level (JInt i) = str_of_int i"
| "encode unit level (JNonFinite x) =
     (case x of NaN \<Rightarrow> ''NaN'' | PosInfinity \<Rightarrow> ''Infinity'' | NegInfinity \<Rightarrow> ''-Infinity'')"
| "encode unit level (JString s) = encode_basestring s"
| "encode unit level (JList xs) =
     (if xs = [] then ''[]''
      else ''['' @ newline_indent unit (Suc level)
           @ join (item_separator unit @ newline_indent unit (Suc level))
                  (map (encode unit (Suc level)) xs)
           @ newline_indent unit level @ '']'')"
| "encode unit level (JDict kvs) =
     (if kvs = [] then ''{}''
      else ''{'' @ newline_indent unit (Suc level)
           @ join (item_separator unit @ newline_indent unit (Suc level))
                  (map (\<lambda>kv. encode_basestring (fst kv) @ '': '' @ snd kv)
                     (sort_items (map (\<lambda>kv. (fst kv, encode unit (Suc level) (snd kv))) kvs)))
           @ newline_indent unit level @ ''}'')"

fun has_nonfinite :: "json \<Rightarrow> bool" where
  "has_nonfinite (JNonFinite x) = True"
| "has_nonfinite (JList xs) = list_ex has_nonfinite xs"
| "has_nonfinite (JDict kvs) = list_ex (\<lambda>kv. has_nonfinite (snd kv)) kvs"
| "has_nonfinite d = False"

definition ref_dumps :: "indent \<Rightarrow> json \<Rightarrow> error + string" where
  "ref_dumps ind d = (if has_nonfinite d then Inl ValueError else Inr (encode (indent_unit ind) 0 d))"


text \<open>The decoder, with a bound on the number of nested calls.\<close>

definition json_ws :: "char \<Rightarrow> bool" where
  "json_ws c = (c = CHR '' '' \<or> c = CHR 0x09 \<or> c = LF \<or> c = CR)"

definition skip_ws :: "string \<Rightarrow> string" where
  "skip_ws s = dropWhile json_ws s"

definition is_digit :: "char \<Rightarrow> bool" where
  "is_digit c = (c \<in> set ''0123456789'')"

definition nat_of_digits :: "string \<Rightarrow> nat" where
  "nat_of_digits ds = foldl (\<lambda>n c. 10 * n + (of_char c - 48)) 0 ds"

definition parse_number :: "string \<Rightarrow> (json \<times> string) option" where
  "parse_number s =
     (let negative = (take 1 s = ''-'');
          r = (if negative then drop 1 s else s);
          ds = takeWhile is_digit r;
          ip = (if take 1 ds = ''0'' then ''0'' else ds);
          rest = drop (length ip) r
      in if ip = [] then None
         else if take 1 rest = ''.'' \<and> list_ex is_digit (take 1 (drop 1 rest)) then None
         else if take 1 rest = ''e'' \<or> take 1 rest = ''E'' then None
         else Some (JInt (if negative then - int (nat_of_digits ip) else int (nat_of_digits ip)), rest))"

definition unescape :: "char \<Rightarrow> char option" where
  "unescape e =
     (if e = DQ then Some DQ
      else if e = BSL then Some BSL
      else if e = CHR ''/'' then Some (CHR ''/'')
      else if e = CHR ''b'' then Some (CHR 0x08)
      else if e = CHR ''f'' then Some (CHR 0x0C)
      else if e = CHR ''n'' then Some LF
      else if e = CHR ''r'' then Some CR
      else if e = CHR ''t'' then Some (CHR 0x09)
      else None)"

definition hex_digit :: "char \<Rightarrow> nat option" where
  "hex_digit c =
     (if c \<in> set ''0123456789'' then Some (of_char c - 48)
      else if c \<in> set ''abcdef'' then Some (of_char c - 87)
      else if c \<in> set ''ABCDEF'' then Some (of_char c - 55)
      else None)"

definition hex4 :: "string \<Rightarrow> nat option" where
  "hex4 s =
     (if length s < 4 then None
      else (case map hex_digit (take 4 s) of
              [Some a, Some b, Some c, Some d] \<Rightarrow> Some (((a * 16 + b) * 16 + c) * 16 + d)
            | _ \<Rightarrow> None))"

fun parse_string :: "string \<Rightarrow> (string \<times> string) option" where
  "parse_string [] = None"
| "parse_string (c # cs) =
     (if c = DQ then Some ([], cs)
      else if c = BSL then
        (case cs of
           [] \<Rightarrow> None
         | e # es \<Rightarrow>
             (if e = CHR ''u'' then
                (case hex4 es of
                   None \<Rightarrow> None
                 | Some n \<Rightarrow>
                     (if n < 256
                      then map_option (\<lambda>(t, r). (char_of n # t, r)) (parse_string (drop 4 es))
                      else None))
              else
                (case unescape e of
                   None \<Rightarrow> None
                 | Some ch \<Rightarrow> map_option (\<lambda>(t, r). (ch # t, r)) (parse_string es))))
      else if (of_char c :: nat) < 32 then None
      else map_option (\<lambda>(t, r). (c # t, r)) (parse_string cs))"

fun dict_set :: "(string \<times> 'a) list \<Rightarrow> string \<Rightarrow> 'a \<Rightarrow> (string \<times> 'a) list" where
  "dict_set [] k v = [(k, v)]"
| "dict_set (kv # kvs) k v = (if fst kv = k then (k, v) # kvs else kv # dict_set kvs k v)"

fun parse_value :: "nat \<Rightarrow> string \<Rightarrow> (json \<times> string) option"
  and parse_items :: "nat \<Rightarrow> json list \<Rightarrow> string \<Rightarrow> (json \<times> string) option"
  and parse_pairs :: "nat \<Rightarrow> (string \<times> json) list \<Rightarrow> string \<Rightarrow> (json \<times> string) option" where
  "parse_value 0 s = None"
| "parse_value (Suc n) s =
     (if take 1 s = [DQ] then map_option (\<lambda>(t, r). (JString t, r)) (parse_string (drop 1 s))
      else if take 1 s = ''{'' then
        (if take 1 (skip_ws (drop 1 s)) = ''}'' then Some (JDict [], drop 1 (skip_ws (drop 1 s)))
         else parse_pairs n [] (skip_ws (drop 1 s)))
      else if take 1 s = ''['' then
        (if take 1 (skip_ws (drop 1 s)) = '']'' then Some (JList [], drop 1 (skip_ws (drop 1 s)))
         else parse_items n [] (skip_ws (drop 1 s)))
      else if take 4 s = ''null'' then Some (JNull, drop 4 s)
      else if take 4 s = ''true'' then Some (JBool True, drop 4 s)
      else if take 5 s = ''false'' then Some (JBool False, drop 5 s)
      else if take 3 s = ''NaN'' then Some (JNonFinite NaN, drop 3 s)
      else if take 8 s = ''Infinity'' then Some (JNonFinite PosInfinity, drop 8 s)
      else if take 9 s = ''-Infinity'' then Some (JNonFinite NegInfinity, drop 9 s)
      else parse_number s)"
| "parse_items 0 acc s = None"
| "parse_items (Suc n) acc s =
     (case parse_value n s of
        None \<Rightarrow> None
      | Some (v, r) \<Rightarrow>
          (if take 1 (skip_ws r) = '']'' then Some (JList (acc @ [v]), drop 1 (skip_ws r))
           else if take 1 (skip_ws r) = '','' then parse_items n (acc @ [v]) (skip_ws (drop 1 (skip_ws r)))
           else None))"
| "parse_pairs 0 acc s = None"
| "parse_pairs (Suc n) acc s =
     (if take 1 s \<noteq> [DQ] then None
      else
        (case parse_string (drop 1 s) of
           None \<Rightarrow> None
         | Some (k, r) \<Rightarrow>
             (if take 1 (skip_ws r) \<noteq> '':'' then None
              else
                (case parse_value n (skip_ws (drop 1 (skip_ws r))) of
                   None \<Rightarrow> None
                 | Some (v, r') \<Rightarrow>
                     (if take 1 (skip_ws r') = ''}''
                      then Some (JDict (dict_set acc k v), drop 1 (skip_ws r'))
                      else if take 1 (skip_ws r') = '',''
                      then parse_pairs n (dict_set acc k v) (skip_ws (drop 1 (skip_ws r')))
                      else None)))))"

definition ref_loads :: "string \<Rightarrow> error + json" where
  "ref_loads s =
     (case parse_value (2 * length s + 2) (skip_ws s) of
        None \<Rightarrow> Inl JSONDecodeError
      | Some (v, r) \<Rightarrow> (if skip_ws r = [] then Inr v else Inl JSONDecodeError))"

text \<open>The instance hashes a text to itself, so that no two texts collide.\<close>

definition ref_hash :: "string \<Rightarrow> string" where
  "ref_hash s = s"

definition ref_library :: "(json, string) library" where
  "ref_library = \<lparr> json_dumps = ref_dumps, json_loads = ref_loads, hash = ref_hash \<rparr>"

section \<open>Notions of the specification\<close>

text \<open>The lines of the input after its last separator line (all of them when it has none).\<close>

definition after_last_separator :: "string \<Rightarrow> string list \<Rightarrow> string list" where
  "after_last_separator separator ls =
     rev (takeWhile (\<lambda>line. rstrip_crlf line \<noteq> separator) (rev ls))"

text \<open>The generator after \<open>n\<close> resumptions.\<close>

fun advance :: "nat \<Rightarrow> generator \<Rightarrow> generator" where
  "advance 0 g = g"
| "advance (Suc n) g = advance n (snd (reader_next g))"

text \<open>
  A chunk is a duplicate for a reader when it decodes to a document whose canonical hash
  is in the reader's seen-set; a reader without a seen-set has no duplicates.
\<close>

definition duplicate :: "('d, 'h) library \<Rightarrow> 'h set option \<Rightarrow> string list \<Rightarrow> bool" where
  "duplicate lib seen chunk =
     (case seen of
        None \<Rightarrow> False
      | Some hashes \<Rightarrow>
          (case json_loads lib (concat chunk) of
             Inl e \<Rightarrow> False
           | Inr d \<Rightarrow> (case canonical_hash lib d of Inl e \<Rightarrow> False | Inr h \<Rightarrow> h \<in> hashes)))"

text \<open>
  One pull of the reader as the specification describes it: the chunks that are
  duplicates are skipped; the first chunk that is not one is decoded, its document's hash
  is added to the seen-set, the count goes up by one and the document is returned. When
  no such chunk is left, the pull ends with the exception that ends the generator; when
  the chunk cannot be decoded, or its document cannot be encoded for hashing, the pull
  ends with that exception. In each case the generator has moved past the chunks read.
\<close>

definition pull_spec :: "('d, 'h) library \<Rightarrow> 'h DumpReader \<Rightarrow> (error + 'd) \<times> 'h DumpReader" where
  "pull_spec lib r =
     (let chunks = fst (reader_drain (r_reader r));
          skipped = takeWhile (duplicate lib (r_seen r)) chunks;
          r' = r\<lparr>r_reader := advance (Suc (length skipped)) (r_reader r)\<rparr>
      in case dropWhile (duplicate lib (r_seen r)) chunks of
           [] \<Rightarrow> (Inl (snd (reader_drain (r_reader r))), r')
         | chunk # chunks' \<Rightarrow>
             (case json_loads lib (concat chunk) of
                Inl e \<Rightarrow> (Inl e, r')
              | Inr d \<Rightarrow>
                  (case r_seen r of
                     None \<Rightarrow> (Inr d, r'\<lparr>r_obj_num := r_obj_num r + 1\<rparr>)
                   | Some hashes \<Rightarrow>
                       (case canonical_hash lib d of
                          Inl e \<Rightarrow> (Inl e, r')
                        | Inr h \<Rightarrow>
                            (Inr d, r'\<lparr>r_seen := Some (insert h hashes),
                                       r_obj_num := r_obj_num r + 1\<rparr>)))))"

text \<open>
  The same search as a result of the loop of \<^verbatim>\<open>__next__\<close>, for a reader with a seen-set.
\<close>

definition first_unseen ::
  "('d, 'h) library \<Rightarrow> 'h set \<Rightarrow> generator \<Rightarrow> (error + 'd \<times> 'h) \<times> generator" where
  "first_unseen lib seen g =
     (let chunks = fst (reader_drain g);
          skipped = takeWhile (duplicate lib (Some seen)) chunks;
          g' = advance (Suc (length skipped)) g
      in case dropWhile (duplicate lib (Some seen)) chunks of
           [] \<Rightarrow> (Inl (snd (reader_drain g)), g')
         | chunk # chunks' \<Rightarrow>
             (case json_loads lib (concat chunk) of
                Inl e \<Rightarrow> (Inl e, g')
              | Inr d \<Rightarrow>
                  (case canonical_hash lib d of
                     Inl e \<Rightarrow> (Inl e, g')
                   | Inr h \<Rightarrow> (Inr (d, h), g'))))"

text \<open>
  The two tests of \<^verbatim>\<open>DumpOpener.__init__\<close> in write/create mode: whether the tests of the
  file name set \<^verbatim>\<open>self.gz\<close> to \<^verbatim>\<open>True\<close>, and whether the gzip stream is opened.
\<close>

definition gz_name :: "string \<Rightarrow> bool" where
  "gz_name path = endswith (basename path) ''gz''"

definition use_gzip :: "string \<Rightarrow> bool option \<Rightarrow> bool" where
  "use_gzip path gz = (case gz of None \<Rightarrow> gz_name path | Some b \<Rightarrow> b)"

text \<open>The characters a JSON value can start with.\<close>

definition value_start :: "char \<Rightarrow> bool" where
  "value_start c = (c \<in> set (DQ # ''{[ntfNI-0123456789''))"

section \<open>Facts about the generator\<close>

lemma reader_loop_no_separator:
  "list_all (\<lambda>line. rstrip_crlf line \<noteq> separator) ls \<Longrightarrow>
   reader_loop separator buf ls =
     (if py_strip (concat (buf @ ls)) \<noteq> [] then (Inl AssertionError, Finished)
      else (Inl StopIteration, Finished))"
  by (induction ls arbitrary: buf) auto

lemma reader_loop_separator:
  "list_all (\<lambda>line. rstrip_crlf line \<noteq> separator) pre \<Longrightarrow> rstrip_crlf l = separator \<Longrightarrow>
   reader_loop separator buf (pre @ l # rest) =
     (Inr (buf @ pre), Suspended separator (Lines rest))"
  by (induction pre arbitrary: buf) auto

lemma takeWhile_stops: "\<not> P l \<Longrightarrow> takeWhile P (xs @ l # ys) = takeWhile P xs"
  by (induction xs) auto

lemma after_last_separator_skip:
  "rstrip_crlf l = separator \<Longrightarrow>
   after_last_separator separator (pre @ l # rest) = after_last_separator separator rest"
  by (simp add: after_last_separator_def takeWhile_stops)

lemma after_last_separator_none:
  "list_all (\<lambda>line. rstrip_crlf line \<noteq> separator) ls \<Longrightarrow> after_last_separator separator ls = ls"
  by (simp add: after_last_separator_def list_all_iff takeWhile_eq_all_conv [THEN iffD2])

lemma reader_drain_end:
  "snd (reader_drain (Suspended separator (Lines ls))) =
     (if py_strip (concat (after_last_separator separator ls)) \<noteq> [] then AssertionError
      else StopIteration)"
proof (induction "length ls" arbitrary: ls rule: less_induct)
  case less
  show ?case
  proof (cases "list_all (\<lambda>line. rstrip_crlf line \<noteq> separator) ls")
    case True
    then show ?thesis
      using reader_loop_no_separator [OF True, of "[]"]
      by (subst reader_drain.simps) (simp add: reader_next_def after_last_separator_none)
  next
    case False
    then have "\<exists>x\<in>set ls. \<not> rstrip_crlf x \<noteq> separator"
      by (simp add: list_all_iff)
    then obtain pre l rest where
      ls: "ls = pre @ l # rest" and l: "\<not> rstrip_crlf l \<noteq> separator"
      and pre: "\<forall>x\<in>set pre. rstrip_crlf x \<noteq> separator"
      using split_list_first_prop [of ls "\<lambda>x. \<not> rstrip_crlf x \<noteq> separator"] by blast
    have body: "reader_loop separator [] ls = (Inr pre, Suspended separator (Lines rest))"
      using reader_loop_separator [of separator pre l "[]" rest] pre l ls
      by (simp add: list_all_iff)
    have "length rest < length ls" using ls by simp
    from less [OF this] show ?thesis
      using body l ls
      by (subst reader_drain.simps)
         (simp add: reader_next_def after_last_separator_skip split_beta)
  qed
qed

lemma reader_loop_Inl: "reader_loop separator buf ls = (Inl e, g) \<Longrightarrow> g = Finished"
  by (induction ls arbitrary: buf) (auto split: if_splits)

lemma reader_next_Inl: "reader_next g = (Inl e, g') \<Longrightarrow> g' = Finished"
  by (auto simp: reader_next_def split: generator.splits line_iter.splits dest: reader_loop_Inl)

lemma reader_drain_Inl: "reader_next g = (Inl e, g') \<Longrightarrow> reader_drain g = ([], e)"
  by (subst reader_drain.simps) simp

lemma reader_drain_Inr:
  "reader_next g = (Inr c, g') \<Longrightarrow>
   reader_drain g = (c # fst (reader_drain g'), snd (reader_drain g'))"
  by (subst reader_drain.simps) (simp add: split_beta)

lemma readlines_nonempty: "s \<noteq> [] \<Longrightarrow> readlines s \<noteq> []"
  by (cases s) (auto split: list.splits)

lemma readlines_append: "readlines (a @ LF # b) = readlines (a @ [LF]) @ readlines b"
proof (induction a)
  case Nil
  show ?case by simp
next
  case (Cons c a)
  have "readlines (a @ [LF]) \<noteq> []" by (rule readlines_nonempty) simp
  then obtain l ls where "readlines (a @ [LF]) = l # ls" by (cases "readlines (a @ [LF])") auto
  with Cons show ?case by simp
qed

lemma readlines_line: "LF \<notin> set a \<Longrightarrow> readlines (a @ [LF]) = [a @ [LF]]"
  by (induction a) auto

lemma concat_readlines: "concat (readlines s) = s"
  by (induction s) (auto split: list.splits)

lemma rstrip_crlf_LF: "rstrip_crlf (s @ [LF]) = rstrip_crlf s"
  by (simp add: rstrip_crlf_def)

section \<open>Facts about the reader and the writer\<close>

lemma fetch_first_unseen:
  "fst (reader_drain g) = chunks \<Longrightarrow>
   (case next_json lib g of
      (Inl e, g') \<Rightarrow> (Inl e, g')
    | (Inr d, g') \<Rightarrow>
        (case canonical_hash lib d of
           Inl e \<Rightarrow> (Inl e, g')
         | Inr h \<Rightarrow> skip_seen lib seen d h g')) = first_unseen lib seen g"
proof (induction chunks arbitrary: g)
  case Nil
  obtain x g1 where rn: "reader_next g = (x, g1)" by (cases "reader_next g")
  show ?case
  proof (cases x)
    case (Inl e)
    with rn have "reader_drain g = ([], e)" by (auto dest: reader_drain_Inl)
    with rn Inl show ?thesis
      by (simp add: first_unseen_def next_json_def)
  next
    case (Inr c)
    with rn Nil show ?thesis by (auto dest: reader_drain_Inr)
  qed
next
  case (Cons c cs)
  obtain x g1 where rn: "reader_next g = (x, g1)" by (cases "reader_next g")
  show ?case
  proof (cases x)
    case (Inl e)
    with rn Cons.prems show ?thesis by (auto dest: reader_drain_Inl)
  next
    case (Inr c')
    with rn have dr: "reader_drain g = (c' # fst (reader_drain g1), snd (reader_drain g1))"
      by (auto dest: reader_drain_Inr)
    with Cons.prems have c': "c' = c" and cs: "fst (reader_drain g1) = cs" by simp_all
    note IH = Cons.IH [OF cs]
    show ?thesis
    proof (cases "duplicate lib (Some seen) c")
      case True
      then obtain d h where d: "json_loads lib (concat c) = Inr d"
        and h: "canonical_hash lib d = Inr h" and hs: "h \<in> seen"
        by (auto simp: duplicate_def split: sum.splits)
      have "skip_seen lib seen d h g1 = first_unseen lib seen g1"
        using hs IH by (subst skip_seen.simps) simp
      also have "\<dots> = first_unseen lib seen g"
      proof -
        have e1: "fst (reader_drain g) = c # cs"
          and e2: "snd (reader_drain g) = snd (reader_drain g1)"
          using dr c' cs by simp_all
        have e3: "takeWhile (duplicate lib (Some seen)) (c # cs) =
                    c # takeWhile (duplicate lib (Some seen)) cs"
          and e4: "dropWhile (duplicate lib (Some seen)) (c # cs) =
                    dropWhile (duplicate lib (Some seen)) cs"
          using True by simp_all
        have e5: "\<And>n. advance (Suc (Suc n)) g = advance (Suc n) g1"
          using rn by simp
        show ?thesis
          unfolding first_unseen_def Let_def e1 e2 cs e3 e4 length_Cons e5 by (rule refl)
      qed
      finally show ?thesis using rn Inr c' d h by (simp add: next_json_def)
    next
      case False
      then show ?thesis
        using rn Inr c' dr cs
        by (auto simp: first_unseen_def next_json_def duplicate_def skip_seen.simps
                 split: sum.splits)
    qed
  qed
qed

lemma DumpReader_next_pull_spec: "DumpReader_next lib r = pull_spec lib r"
proof (cases "r_seen r")
  case None
  obtain x g1 where rn: "reader_next (r_reader r) = (x, g1)" by (cases "reader_next (r_reader r)")
  show ?thesis
  proof (cases x)
    case (Inl e)
    with rn None show ?thesis
      by (auto simp: DumpReader_next_def pull_spec_def next_json_def duplicate_def
               dest: reader_drain_Inl)
  next
    case (Inr c)
    with rn None show ?thesis
      by (auto simp: DumpReader_next_def pull_spec_def next_json_def duplicate_def
               dest: reader_drain_Inr split: sum.splits)
  qed
next
  case (Some seen)
  have "DumpReader_next lib r =
    (case first_unseen lib seen (r_reader r) of
       (Inl e, g') \<Rightarrow> (Inl e, r\<lparr>r_reader := g'\<rparr>)
     | (Inr (d, h), g') \<Rightarrow>
         (Inr d, r\<lparr>r_reader := g', r_seen := Some (insert h seen),
                    r_obj_num := r_obj_num r + 1\<rparr>))"
    unfolding fetch_first_unseen [OF refl, of lib seen "r_reader r", symmetric]
    using Some
    by (auto simp: DumpReader_next_def split: prod.splits sum.splits)
  also have "\<dots> = pull_spec lib r"
  proof (cases "dropWhile (duplicate lib (Some seen)) (fst (reader_drain (r_reader r)))")
    case Nil
    show ?thesis
      unfolding first_unseen_def pull_spec_def Let_def Some Nil by simp
  next
    case (Cons c cs)
    show ?thesis
      unfolding first_unseen_def pull_spec_def Let_def Some Cons
      by (simp split: sum.splits)
  qed
  finally show ?thesis .
qed

lemma duplicate_blank:
  "json_loads lib (concat chunk) = Inl e \<Longrightarrow> \<not> duplicate lib seen chunk"
  by (simp add: duplicate_def split: option.splits)

lemma writemany_from_all:
  "\<forall>d\<in>set docs. json_dumps lib (w_indent w) d = Inr (f d) \<Longrightarrow> w_seen w = None \<Longrightarrow>
   w_file_obj w = OutStream out \<Longrightarrow>
   writemany_from lib w docs n =
     (Inr (n + length docs),
      w\<lparr>w_file_obj := OutStream (out @ concat (map (\<lambda>d. f d @ w_separator_blob w) docs)),
        w_obj_num := w_obj_num w + length docs\<rparr>)"
proof (induction docs arbitrary: w out n)
  case Nil
  then show ?case by simp
next
  case (Cons d docs)
  let ?w = "w\<lparr>w_file_obj := OutStream (out @ f d @ w_separator_blob w),
              w_obj_num := w_obj_num w + 1\<rparr>"
  have step: "DumpWriter_write lib w d = (Inr True, ?w)"
    using Cons.prems by (simp add: DumpWriter_write_def write_blob_def file_write_def)
  have "writemany_from lib ?w docs (n + 1) =
     (Inr (n + 1 + length docs),
      ?w\<lparr>w_file_obj := OutStream ((out @ f d @ w_separator_blob w)
                            @ concat (map (\<lambda>d. f d @ w_separator_blob ?w) docs)),
        w_obj_num := w_obj_num ?w + length docs\<rparr>)"
    by (rule Cons.IH) (use Cons.prems in simp_all)
  then show ?case using step by simp
qed

lemma read_all_stream:
  assumes sep: "LF \<notin> set separator" "rstrip_crlf separator = separator"
  shows "\<forall>d\<in>set docs. json_loads lib (f d @ [LF]) = Inr d
           \<and> (\<forall>l\<in>set (readlines (f d @ [LF])). rstrip_crlf l \<noteq> separator) \<Longrightarrow>
   r_seen r = None \<Longrightarrow>
   r_reader r = Suspended separator
     (Lines (readlines (concat (map (\<lambda>d. f d @ [LF] @ separator @ [LF]) docs)))) \<Longrightarrow>
   read_all lib r ret =
     (Inr (ret @ docs), r\<lparr>r_reader := Finished, r_obj_num := r_obj_num r + length docs\<rparr>)"
proof (induction docs arbitrary: r ret)
  case Nil
  then have "DumpReader_next lib r = (Inl StopIteration, r\<lparr>r_reader := Finished\<rparr>)"
    by (simp add: DumpReader_next_def next_json_def reader_next_def py_strip_def)
  then show ?case by (subst read_all.simps) simp
next
  case (Cons d docs)
  let ?rest = "concat (map (\<lambda>d. f d @ [LF] @ separator @ [LF]) docs)"
  have lines: "readlines (concat (map (\<lambda>d. f d @ [LF] @ separator @ [LF]) (d # docs))) =
      readlines (f d @ [LF]) @ (separator @ [LF]) # readlines ?rest"
    using readlines_append [of "f d" "separator @ LF # ?rest"]
      readlines_append [of separator ?rest] readlines_line [OF sep(1)]
    by simp
  have loop: "reader_loop separator [] (readlines (f d @ [LF]) @ (separator @ [LF]) # readlines ?rest)
      = (Inr ([] @ readlines (f d @ [LF])), Suspended separator (Lines (readlines ?rest)))"
    by (rule reader_loop_separator)
       (use Cons.prems(1) sep(2) in \<open>simp_all add: list_all_iff rstrip_crlf_LF\<close>)
  let ?r = "r\<lparr>r_reader := Suspended separator (Lines (readlines ?rest)),
              r_obj_num := r_obj_num r + 1\<rparr>"
  have rr: "r_reader r = Suspended separator
      (Lines (readlines (f d @ [LF]) @ (separator @ [LF]) # readlines ?rest))"
    using Cons.prems(3) unfolding lines .
  have "next_json lib (r_reader r) = (Inr d, Suspended separator (Lines (readlines ?rest)))"
    unfolding next_json_def reader_next_def rr
    using Cons.prems(1) by (simp add: loop [simplified] concat_readlines)
  then have step: "DumpReader_next lib r = (Inr d, ?r)"
    using Cons.prems(2) by (simp add: DumpReader_next_def)
  have "read_all lib ?r (ret @ [d]) =
      (Inr ((ret @ [d]) @ docs), ?r\<lparr>r_reader := Finished, r_obj_num := r_obj_num ?r + length docs\<rparr>)"
    by (rule Cons.IH) (use Cons.prems in simp_all)
  then show ?case using step by (subst read_all.simps) simp
qed

section \<open>Facts about the instance of the library\<close>

lemma py_strip_Nil_iff: "py_strip s = [] \<longleftrightarrow> (\<forall>c\<in>set s. py_isspace c)"
proof
  assume "py_strip s = []"
  then have "\<forall>c\<in>set (dropWhile py_isspace s). py_isspace c"
    by (simp add: py_strip_def dropWhile_eq_Nil_conv)
  then have "dropWhile py_isspace s = []"
    using hd_dropWhile [of py_isspace s] by (cases "dropWhile py_isspace s") auto
  then show "\<forall>c\<in>set s. py_isspace c" by (simp add: dropWhile_eq_Nil_conv)
next
  assume "\<forall>c\<in>set s. py_isspace c"
  then have dw: "dropWhile py_isspace s = []" by (rule dropWhile_eq_Nil_conv [THEN iffD2])
  show "py_strip s = []" unfolding py_strip_def dw by simp
qed

lemma parse_value_Nil: "parse_value n [] = None"
  by (cases n) (simp_all add: parse_number_def)

lemma parse_value_no_start: "\<not> value_start c \<Longrightarrow> parse_value n (c # cs) = None"
  by (cases n) (simp_all add: value_start_def parse_number_def is_digit_def)

lemma space_no_start: "py_isspace c \<Longrightarrow> \<not> json_ws c \<Longrightarrow> \<not> value_start c"
  by (auto simp: py_isspace_def json_ws_def value_start_def)

lemma ref_loads_blank: "py_strip s = [] \<Longrightarrow> ref_loads s = Inl JSONDecodeError"
proof -
  assume "py_strip s = []"
  then have all: "\<forall>c\<in>set s. py_isspace c" by (simp add: py_strip_Nil_iff)
  show ?thesis
  proof (cases "skip_ws s")
    case Nil
    show ?thesis unfolding ref_loads_def Nil by (simp add: parse_value_Nil)
  next
    case (Cons c cs)
    then have "c \<in> set s" and "\<not> json_ws c"
      using set_dropWhileD [of c json_ws s] hd_dropWhile [of json_ws s]
      by (auto simp: skip_ws_def)
    with all have "py_isspace c" by simp
    then have "\<not> value_start c" using \<open>\<not> json_ws c\<close> by (rule space_no_start)
    then have pv: "parse_value (2 * length s + 2) (c # cs) = None"
      by (rule parse_value_no_start)
    show ?thesis unfolding ref_loads_def Cons pv by simp
  qed
qed

section \<open>Facts about the opener\<close>

lemma endswith_dot_gz: "endswith s ''.gz'' \<Longrightarrow> endswith s ''gz''"
proof -
  assume a: "endswith s ''.gz''"
  then have len: "Suc (Suc (Suc 0)) \<le> length s"
    and d: "drop (length s - Suc (Suc (Suc 0))) s = ''.gz''"
    by (simp_all add: endswith_def)
  have "length s - Suc (Suc 0) = Suc (length s - Suc (Suc (Suc 0)))"
    using len by arith
  then have "drop (length s - Suc (Suc 0)) s = drop (Suc 0) (drop (length s - Suc (Suc (Suc 0))) s)"
    by simp
  with d len show ?thesis by (simp add: endswith_def)
qed

lemma open_write_create_result:
  assumes "mode = ''w'' \<or> mode = ''x''" and "\<not> (mode = ''x'' \<and> path_exists fs path)"
  shows "DumpOpener_init fs path mode gz unique =
     (Inr \<lparr> o_mode = mode, o_path = path, o_temp_path = Some (path @ ''.partial''),
            o_file_obj = (if use_gzip path gz then Binary (path @ ''.partial'')
                          else PlainText (path @ ''.partial'')),
            o_gz = (if use_gzip path gz then GzWrapper
                    else if gz_name path then GzBool True else GzNone),
            o_rw_obj = Writer (DumpWriter_init
                         (if \<not> use_gzip path gz \<and> gz_name path then PyBool True else OutStream [])
                         ''--'' unique (IndentInt 4)) \<rparr>,
      open_truncate fs (path @ ''.partial''))"
proof -
  have gz2: "(if endswith (if endswith (basename path) ''.gz''
                           then take (length (basename path) - 3) (basename path)
                           else basename path) ''gz''
              then GzBool True
              else if endswith (basename path) ''.gz'' then GzBool True else GzNone)
             = (if gz_name path then GzBool True else GzNone)"
    using endswith_dot_gz [of "basename path"] by (auto simp: gz_name_def)
  have init: "DumpOpener_init fs path mode gz unique = open_write_create fs path mode gz unique"
    using assms(1) by (auto simp: DumpOpener_init_def)
  have chk: "py_in mode ''wx''" using assms(1) by auto
  show ?thesis
    unfolding init open_write_create_def Let_def gz2
    using assms(2) chk
    by (cases gz) (auto simp: use_gzip_def)
qed

lemma temp_path_differs [simp]: "path @ ''.partial'' \<noteq> path" "path \<noteq> path @ ''.partial''"
  by simp_all

lemma close_streams_write:
  "close_streams
     \<lparr> o_mode = mode, o_path = path, o_temp_path = Some (path @ ''.partial''),
       o_file_obj = (if use_gzip path gz then Binary (path @ ''.partial'')
                     else PlainText (path @ ''.partial'')),
       o_gz = (if use_gzip path gz then GzWrapper
               else if gz_name path then GzBool True else GzNone),
       o_rw_obj = rw \<rparr> fs' =
     (if \<not> use_gzip path gz \<and> gz_name path then Inl AttributeError
      else Inr (flush fs' (path @ ''.partial'')
                 (if use_gzip path gz then [GzipMember (written_text rw)]
                  else text_segment (written_text rw))))"
  by (simp add: close_streams_def)

lemma exit_write_mode:
  assumes "\<not> (\<not> use_gzip path gz \<and> gz_name path)"
  shows "DumpOpener_exit
     \<lparr> o_mode = ''w'', o_path = path, o_temp_path = Some (path @ ''.partial''),
       o_file_obj = (if use_gzip path gz then Binary (path @ ''.partial'')
                     else PlainText (path @ ''.partial'')),
       o_gz = (if use_gzip path gz then GzWrapper
               else if gz_name path then GzBool True else GzNone),
       o_rw_obj = rw \<rparr> (open_truncate fs (path @ ''.partial'')) =
     (Inr (), (fs(path @ ''.partial'' := None))
                (path \<mapsto> (if use_gzip path gz then [GzipMember (written_text rw)]
                            else text_segment (written_text rw))))"
  unfolding DumpOpener_exit_def close_streams_write
  using assms
  by (auto simp: flush_def open_truncate_def path_exists_def os_remove_def os_rename_def
      fun_eq_iff split: option.splits)

section \<open>C1: an error inside a write transaction\<close>

text \<open>
  Claim C1 says that a write transaction in which an error is raised leaves the final
  path as it was. The code does not: \<^verbatim>\<open>__exit__\<close> does not look at \<^verbatim>\<open>exc_type\<close>, so when a
  write of \<^verbatim>\<open>dump\<close> raises (an encode failure, say), the streams are closed, an existing
  final path is removed and the staging file, which holds the documents written before
  the error, is renamed onto the final path. The error of the write is raised after that.
\<close>

theorem C1_failed_write_is_installed:
  assumes "DumpWriter_writemany lib (DumpWriter_init (OutStream []) ''--'' unique (IndentInt 4)) docs
             = (Inl e, w)"
  shows "dump lib fs docs path True unique =
     (Inl e, (fs(path @ ''.partial'' := None))
               (path \<mapsto> (if endswith (basename path) ''gz''
                           then [GzipMember (written_text (Writer w))]
                           else text_segment (written_text (Writer w)))))"
proof -
  have w: "''w'' = ''w'' \<or> ''w'' = ''x''" by simp
  have ne: "\<not> (''w'' = ''x'' \<and> path_exists fs path)" by simp
  have nc: "\<not> (\<not> use_gzip path None \<and> gz_name path)" by (simp add: use_gzip_def)
  show ?thesis
    unfolding dump_def
    using assms nc exit_write_mode [OF nc, of "Writer w" fs]
    by (simp add: open_write_create_result [OF w ne] use_gzip_def gz_name_def)
qed

text \<open>
  The failing input of C1: the final path holds \<^verbatim>\<open>old\<close>, the second of three documents is
  \<^verbatim>\<open>NaN\<close>. After \<^verbatim>\<open>dump\<close> has raised \<^verbatim>\<open>ValueError\<close>, the final path holds the first
  document only and the staging file is gone.
\<close>

theorem C1_partial_output_witness:
  "dump ref_library (Map.empty(''/d/out'' \<mapsto> [Text ''old''])) [JInt 1, JNonFinite NaN, JInt 3]
     ''/d/out'' True False =
   (Inl ValueError, Map.empty(''/d/out'' \<mapsto> [Text ''1\<newline>--\<newline>'']))"
proof -
  have run: "DumpWriter_writemany ref_library
      (DumpWriter_init (OutStream []) ''--'' False (IndentInt 4) :: string DumpWriter)
      [JInt 1, JNonFinite NaN, JInt 3] =
      (Inl ValueError, (DumpWriter_init (OutStream ''1\<newline>--\<newline>'') ''--'' False (IndentInt 4))
                         \<lparr>w_obj_num := 1\<rparr>)"
    by code_simp
  have name: "\<not> endswith (basename ''/d/out'') ''gz''" by code_simp
  show ?thesis
    using C1_failed_write_is_installed [OF run, of "Map.empty(''/d/out'' \<mapsto> [Text ''old''])" "''/d/out''"]
      name
    by (simp add: written_text_def text_segment_def DumpWriter_init_def)
qed

section \<open>C2: the generator and unterminated trailing content\<close>

text \<open>
  Claim C2. When the input is exhausted, the generator \<^verbatim>\<open>_reader\<close> ends with the exception
  of its closing \<^verbatim>\<open>assert\<close> (the format error of the specification) if and only if the
  lines after the last separator line contain a character that is not whitespace;
  otherwise (the input ends with a separator line, or only whitespace follows the last
  one) it ends as every exhausted generator does, with \<^verbatim>\<open>StopIteration\<close>. On the input
  \<^verbatim>\<open>{"a":1}\n--\nstray\<close> the generator yields the chunk of the first document and then
  raises the error.
\<close>

theorem C2_unterminated_tail_raises:
  \<open>snd (reader_drain (reader (Lines ls) separator)) =
     (if py_strip (concat (after_last_separator separator ls)) \<noteq> [] then AssertionError
      else StopIteration)
   \<and> reader_drain (reader (Lines (readlines ''{"a":1}\<newline>--\<newline>stray'')) ''--'') =
       ([[''{"a":1}\<newline>'']], AssertionError)\<close>
proof
  show "snd (reader_drain (reader (Lines ls) separator)) =
     (if py_strip (concat (after_last_separator separator ls)) \<noteq> [] then AssertionError
      else StopIteration)"
    unfolding reader_def by (rule reader_drain_end)
next
  show \<open>reader_drain (reader (Lines (readlines ''{"a":1}\<newline>--\<newline>stray'')) ''--'') =
       ([[''{"a":1}\<newline>'']], AssertionError)\<close>
    by code_simp
qed

theorem C2_whitespace_tail_witness:
  "snd (reader_drain (reader (Lines [''1\<newline>'', ''--\<newline>'', '' \<newline>'']) ''--'')) = StopIteration"
proof -
  have tail: "py_strip (concat (after_last_separator ''--'' [''1\<newline>'', ''--\<newline>'', '' \<newline>''])) = []"
    by code_simp
  show ?thesis
    using C2_unterminated_tail_raises [of "[''1\<newline>'', ''--\<newline>'', '' \<newline>'']" "''--''"] tail
    by simp
qed

section \<open>C3: writing and reading back without dedup\<close>

text \<open>
  Claim C3. Documents written in order through a \<^verbatim>\<open>DumpWriter\<close> without dedup, and the
  stream then read through a \<^verbatim>\<open>DumpReader\<close> without dedup, give the same documents in
  the same order, and both counts are the number of documents. This is what the code
  needs of the library and of the separator: every document is encoded without error,
  is decoded again from its text followed by a line feed, and no line of its text is the
  separator; the separator holds no line feed and does not end in a carriage return.
  Python's \<^verbatim>\<open>json\<close> and the separator \<^verbatim>\<open>--\<close> meet these conditions.
\<close>

theorem C3_write_then_read:
  assumes sep: "LF \<notin> set separator" "rstrip_crlf separator = separator"
    and docs: "\<forall>d\<in>set docs. \<exists>s. json_dumps lib ind d = Inr s \<and> json_loads lib (s @ [LF]) = Inr d
                 \<and> (\<forall>l\<in>set (readlines (s @ [LF])). rstrip_crlf l \<noteq> separator)"
  shows "\<exists>out w r.
           DumpWriter_writemany lib (DumpWriter_init (OutStream []) separator False ind) docs
             = (Inr (length docs), w)
         \<and> w_file_obj w = OutStream out
         \<and> DumpReader_read lib (DumpReader_init (Lines (readlines out)) separator False cl) (- 1)
             = (Inr docs, r)
         \<and> r_obj_num r = length docs"
proof -
  from bchoice [OF docs] obtain f where f: "\<forall>d\<in>set docs. json_dumps lib ind d = Inr (f d)
      \<and> json_loads lib (f d @ [LF]) = Inr d
      \<and> (\<forall>l\<in>set (readlines (f d @ [LF])). rstrip_crlf l \<noteq> separator)"
    by blast
  let ?w0 = "DumpWriter_init (OutStream []) separator False ind :: 'b DumpWriter"
  let ?out = "concat (map (\<lambda>d. f d @ [LF] @ separator @ [LF]) docs)"
  let ?r0 = "DumpReader_init (Lines (readlines ?out)) separator False cl :: 'b DumpReader"
  have w: "writemany_from lib ?w0 docs 0 =
     (Inr (0 + length docs),
      ?w0\<lparr>w_file_obj := OutStream ([] @ concat (map (\<lambda>d. f d @ w_separator_blob ?w0) docs)),
        w_obj_num := w_obj_num ?w0 + length docs\<rparr>)"
    by (rule writemany_from_all) (use f in \<open>simp_all add: DumpWriter_init_def\<close>)
  have r: "read_all lib ?r0 [] =
     (Inr ([] @ docs), ?r0\<lparr>r_reader := Finished, r_obj_num := r_obj_num ?r0 + length docs\<rparr>)"
    by (rule read_all_stream [OF sep, where f = f])
       (use f in \<open>simp_all add: DumpReader_init_def reader_def\<close>)
  show ?thesis
    apply (rule exI [of _ ?out])
    apply (rule exI [of _ "?w0\<lparr>w_file_obj := OutStream ?out, w_obj_num := length docs\<rparr>"])
    apply (rule exI [of _ "?r0\<lparr>r_reader := Finished, r_obj_num := length docs\<rparr>"])
    using w r
    apply (simp add: DumpWriter_writemany_def DumpReader_read_def DumpWriter_init_def
        DumpReader_init_def)
    done
qed

theorem C3_round_trip_witness:
  \<open>\<exists>out w r.
      DumpWriter_writemany ref_library
        (DumpWriter_init (OutStream []) ''--'' False (IndentInt 4))
        [JDict [(''a'', JInt 1)], JString ''--''] = (Inr 2, w)
    \<and> w_file_obj w = OutStream out
    \<and> DumpReader_read ref_library (DumpReader_init (Lines (readlines out)) ''--'' False False) (- 1)
        = (Inr [JDict [(''a'', JInt 1)], JString ''--''], r)
    \<and> r_obj_num r = 2\<close>
proof -
  let ?docs = "[JDict [(''a'', JInt 1)], JString ''--'']"
  have sep: "LF \<notin> set ''--''" "rstrip_crlf ''--'' = ''--''"
    by (simp_all add: rstrip_crlf_def)
  have d1: "json_dumps ref_library (IndentInt 4) (JDict [(''a'', JInt 1)])
              = Inr (encode (indent_unit (IndentInt 4)) 0 (JDict [(''a'', JInt 1)]))
          \<and> json_loads ref_library (encode (indent_unit (IndentInt 4)) 0 (JDict [(''a'', JInt 1)]) @ [LF])
              = Inr (JDict [(''a'', JInt 1)])
          \<and> (\<forall>l\<in>set (readlines (encode (indent_unit (IndentInt 4)) 0 (JDict [(''a'', JInt 1)]) @ [LF])).
                rstrip_crlf l \<noteq> ''--'')"
    by code_simp
  have d2: "json_dumps ref_library (IndentInt 4) (JString ''--'')
              = Inr (encode (indent_unit (IndentInt 4)) 0 (JString ''--''))
          \<and> json_loads ref_library (encode (indent_unit (IndentInt 4)) 0 (JString ''--'') @ [LF])
              = Inr (JString ''--'')
          \<and> (\<forall>l\<in>set (readlines (encode (indent_unit (IndentInt 4)) 0 (JString ''--'') @ [LF])).
                rstrip_crlf l \<noteq> ''--'')"
    by code_simp
  have docs: "\<forall>d\<in>set ?docs. \<exists>s. json_dumps ref_library (IndentInt 4) d = Inr s
                 \<and> json_loads ref_library (s @ [LF]) = Inr d
                 \<and> (\<forall>l\<in>set (readlines (s @ [LF])). rstrip_crlf l \<noteq> ''--'')"
    using d1 d2 by auto
  show ?thesis
    using C3_write_then_read [OF sep docs, of False] by (simp add: numeral_2_eq_2)
qed

section \<open>C4: writing a document twice with dedup\<close>

text \<open>
  Claim C4. A writer with dedup that has not seen the hash of the text of \<open>D\<close> (a new
  writer has seen none) writes \<open>D\<close> once: the first \<^verbatim>\<open>write\<close> returns \<^verbatim>\<open>True\<close>, adds the text
  and the separator blob to the stream, the hash to the seen-set and one to the count;
  the second returns \<^verbatim>\<open>False\<close> and leaves the writer, its stream included, as it was.
\<close>

theorem C4_second_write_is_rejected:
  assumes "json_dumps lib (w_indent w) D = Inr s"
    and "w_seen w = Some seen"
    and "hash lib s \<notin> seen"
    and "w_file_obj w = OutStream out"
  shows "let w1 = w\<lparr>w_seen := Some (insert (hash lib s) seen),
                     w_file_obj := OutStream (out @ s @ w_separator_blob w),
                     w_obj_num := w_obj_num w + 1\<rparr>
         in DumpWriter_write lib w D = (Inr True, w1)
          \<and> DumpWriter_write lib w1 D = (Inr False, w1)"
  using assms by (simp add: DumpWriter_write_def write_blob_def file_write_def Let_def)

theorem C4_fresh_writer_witness:
  \<open>let w = DumpWriter_init (OutStream []) ''--'' True (IndentInt 4) :: string DumpWriter;
       D = JDict [(''a'', JInt 1)];
       w1 = snd (DumpWriter_write ref_library w D);
       w2 = snd (DumpWriter_write ref_library w1 D)
   in fst (DumpWriter_write ref_library w D) = Inr True
    \<and> fst (DumpWriter_write ref_library w1 D) = Inr False
    \<and> w2 = w1
    \<and> w_obj_num w2 = 1
    \<and> w_file_obj w2 = OutStream ''{\<newline>    "a": 1\<newline>}\<newline>--\<newline>''\<close>
proof -
  let ?w = "DumpWriter_init (OutStream []) ''--'' True (IndentInt 4) :: string DumpWriter"
  let ?D = "JDict [(''a'', JInt 1)]"
  have enc: \<open>json_dumps ref_library (w_indent ?w) ?D = Inr ''{\<newline>    "a": 1\<newline>}''\<close>
    by code_simp
  have seen: "w_seen ?w = Some {}" and out: "w_file_obj ?w = OutStream []"
    by (simp_all add: DumpWriter_init_def)
  have fresh: \<open>hash ref_library ''{\<newline>    "a": 1\<newline>}'' \<notin> {}\<close> by simp
  show ?thesis
    using C4_second_write_is_rejected [OF enc seen fresh out]
    by (simp add: Let_def DumpWriter_init_def)
qed

section \<open>C5: reading with dedup\<close>

lemma scenario_lines:
  \<open>readlines ''{"a":1}\<newline>--\<newline>{"a":1}\<newline>--\<newline>{"b":2}\<newline>--\<newline>'' =
     [''{"a":1}\<newline>'', ''--\<newline>'', ''{"a":1}\<newline>'', ''--\<newline>'', ''{"b":2}\<newline>'', ''--\<newline>'']\<close>
  by simp

lemma rstrip_sentinel: "rstrip_crlf ''--\<newline>'' = ''--''"
  by (simp add: rstrip_crlf_def)

lemma rstrip_a: \<open>rstrip_crlf ''{"a":1}\<newline>'' \<noteq> ''--''\<close>
  by (simp add: rstrip_crlf_def)

lemma rstrip_b: \<open>rstrip_crlf ''{"b":2}\<newline>'' \<noteq> ''--''\<close>
  by (simp add: rstrip_crlf_def)

lemma scenario:
  assumes la: \<open>json_loads lib ''{"a":1}\<newline>'' = Inr a\<close>
    and lb: \<open>json_loads lib ''{"b":2}\<newline>'' = Inr b\<close>
    and da: "json_dumps lib IndentNone a = Inr sa"
    and db: "json_dumps lib IndentNone b = Inr sb"
    and ne: "hash lib sa \<noteq> hash lib sb"
  shows \<open>DumpReader_read lib
           (DumpReader_init
              (Lines (readlines ''{"a":1}\<newline>--\<newline>{"a":1}\<newline>--\<newline>{"b":2}\<newline>--\<newline>''))
              ''--'' True cl) (- 1) =
         (Inr [a, b],
          \<lparr> r_reader = Finished, r_obj_num = 2, r_close = cl,
            r_seen = Some {hash lib sa, hash lib sb} \<rparr>)\<close>
proof -
  let ?A = \<open>''{"a":1}\<newline>''\<close>
  let ?B = \<open>''{"b":2}\<newline>''\<close>
  let ?S = "''--\<newline>''"
  let ?r0 = "\<lparr> r_reader = Suspended ''--'' (Lines [?A, ?S, ?A, ?S, ?B, ?S]), r_obj_num = 0,
               r_close = cl, r_seen = Some ({} :: 'b set) \<rparr>"
  let ?r1 = "\<lparr> r_reader = Suspended ''--'' (Lines [?A, ?S, ?B, ?S]), r_obj_num = 1,
               r_close = cl, r_seen = Some {hash lib sa} \<rparr>"
  let ?r2 = "\<lparr> r_reader = Suspended ''--'' (Lines []), r_obj_num = 2,
               r_close = cl, r_seen = Some {hash lib sa, hash lib sb} \<rparr>"
  let ?r3 = "\<lparr> r_reader = Finished, r_obj_num = 2,
               r_close = cl, r_seen = Some {hash lib sa, hash lib sb} \<rparr>"
  have n1: "DumpReader_next lib ?r0 = (Inr a, ?r1)"
    using la da
    by (simp add: DumpReader_next_def next_json_def reader_next_def rstrip_sentinel rstrip_a
        canonical_hash_def skip_seen.simps)
  have n2: "DumpReader_next lib ?r1 = (Inr b, ?r2)"
    using la lb da db ne
    by (simp add: DumpReader_next_def next_json_def reader_next_def rstrip_sentinel rstrip_a
        rstrip_b canonical_hash_def skip_seen.simps insert_commute)
  have n3: "DumpReader_next lib ?r2 = (Inl StopIteration, ?r3)"
    by (simp add: DumpReader_next_def next_json_def reader_next_def py_strip_def)
  have "read_all lib ?r0 [] = (Inr [a, b], ?r3)"
    apply (subst read_all.simps)
    apply (simp add: n1 [simplified])
    apply (subst read_all.simps)
    apply (simp add: n2 [simplified])
    apply (subst read_all.simps)
    apply (simp add: n3 [simplified])
    done
  then show ?thesis
    unfolding scenario_lines by (simp add: DumpReader_read_def DumpReader_init_def reader_def)
qed

text \<open>
  Claim C5. Each pull of \<^verbatim>\<open>DumpReader.__next__\<close> is the pull of the specification: it skips
  the chunks whose document's canonical hash is in the seen-set, until a new document is
  found or the generator is exhausted. On the input
  \<^verbatim>\<open>{"a":1}\n--\n{"a":1}\n--\n{"b":2}\n--\n\<close> with separator \<^verbatim>\<open>--\<close> and dedup, \<^verbatim>\<open>read()\<close>
  returns the two documents in order and the count is 2, for every library that decodes
  the two texts, encodes the two documents and gives their texts different hashes.
\<close>

theorem C5_reader_skips_seen_documents:
  \<open>DumpReader_next lib r = pull_spec lib r
   \<and> (json_loads lib ''{"a":1}\<newline>'' = Inr a \<longrightarrow> json_loads lib ''{"b":2}\<newline>'' = Inr b \<longrightarrow>
      json_dumps lib IndentNone a = Inr sa \<longrightarrow> json_dumps lib IndentNone b = Inr sb \<longrightarrow>
      hash lib sa \<noteq> hash lib sb \<longrightarrow>
      DumpReader_read lib
        (DumpReader_init
           (Lines (readlines ''{"a":1}\<newline>--\<newline>{"a":1}\<newline>--\<newline>{"b":2}\<newline>--\<newline>''))
           ''--'' True cl) (- 1) =
      (Inr [a, b],
       \<lparr> r_reader = Finished, r_obj_num = 2, r_close = cl,
         r_seen = Some {hash lib sa, hash lib sb} \<rparr>))\<close>
proof (intro conjI impI)
  show "DumpReader_next lib r = pull_spec lib r" by (rule DumpReader_next_pull_spec)
next
  assume \<open>json_loads lib ''{"a":1}\<newline>'' = Inr a\<close> \<open>json_loads lib ''{"b":2}\<newline>'' = Inr b\<close>
    "json_dumps lib IndentNone a = Inr sa" "json_dumps lib IndentNone b = Inr sb"
    "hash lib sa \<noteq> hash lib sb"
  then show \<open>DumpReader_read lib
        (DumpReader_init
           (Lines (readlines ''{"a":1}\<newline>--\<newline>{"a":1}\<newline>--\<newline>{"b":2}\<newline>--\<newline>''))
           ''--'' True cl) (- 1) =
      (Inr [a, b],
       \<lparr> r_reader = Finished, r_obj_num = 2, r_close = cl,
         r_seen = Some {hash lib sa, hash lib sb} \<rparr>)\<close>
    by (rule scenario)
qed

theorem C5_scenario_witness:
  \<open>DumpReader_read ref_library
     (DumpReader_init
        (Lines (readlines ''{"a":1}\<newline>--\<newline>{"a":1}\<newline>--\<newline>{"b":2}\<newline>--\<newline>''))
        ''--'' True False) (- 1) =
   (Inr [JDict [(''a'', JInt 1)], JDict [(''b'', JInt 2)]],
    \<lparr> r_reader = Finished, r_obj_num = 2, r_close = False,
      r_seen = Some {hash ref_library ''{"a": 1}'', hash ref_library ''{"b": 2}''} \<rparr>)\<close>
proof -
  have la: \<open>json_loads ref_library ''{"a":1}\<newline>'' = Inr (JDict [(''a'', JInt 1)])\<close> by code_simp
  have lb: \<open>json_loads ref_library ''{"b":2}\<newline>'' = Inr (JDict [(''b'', JInt 2)])\<close> by code_simp
  have da: \<open>json_dumps ref_library IndentNone (JDict [(''a'', JInt 1)]) = Inr ''{"a": 1}''\<close>
    by code_simp
  have db: \<open>json_dumps ref_library IndentNone (JDict [(''b'', JInt 2)]) = Inr ''{"b": 2}''\<close>
    by code_simp
  have ne: \<open>hash ref_library ''{"a": 1}'' \<noteq> hash ref_library ''{"b": 2}''\<close> by code_simp
  show ?thesis
    by (rule C5_reader_skips_seen_documents [THEN conjunct2, rule_format, OF la lb da db ne])
qed

section \<open>C6: the check of the mode\<close>

text \<open>
  Claim C6 says that every mode other than \<^verbatim>\<open>r\<close>, \<^verbatim>\<open>w\<close>, \<^verbatim>\<open>a\<close>, \<^verbatim>\<open>x\<close> raises the error of
  an unsupported mode before any I/O. The code tests \<^verbatim>\<open>mode not in 'rwax'\<close>, which is a
  substring test, so the empty string and \<^verbatim>\<open>rw\<close> pass it. With the empty mode and no
  override the file is opened to read its first two bytes: a missing file raises
  \<^verbatim>\<open>FileNotFoundError\<close>, an existing one ends at \<^verbatim>\<open>assert mode == 'a'\<close>. The mode \<^verbatim>\<open>rw\<close>
  ends at \<^verbatim>\<open>assert mode in 'wx'\<close>. Neither raises the \<^verbatim>\<open>IOError\<close> of the check.
\<close>

theorem C6_substring_modes_pass_the_check:
  "DumpOpener_init fs path [] None unique =
     (case fs path of
        None \<Rightarrow> (Inl FileNotFoundError, fs)
      | Some c \<Rightarrow> (Inl AssertionError, fs))
   \<and> DumpOpener_init fs path [] (Some b) unique = (Inl AssertionError, fs)
   \<and> DumpOpener_init fs path ''rw'' gz unique = (Inl AssertionError, fs)"
  by (simp add: DumpOpener_init_def open_read_append_def open_write_create_def
      split: option.splits)

section \<open>C7: the transport of a write transaction\<close>

text \<open>
  Claim C7, amended. In write/create mode, gzip is used when the override is true, or
  when there is no override and the file name ends in \<^verbatim>\<open>gz\<close> (as every name ending in
  \<^verbatim>\<open>.gz\<close> does); plain text is used when the file name does not end in \<^verbatim>\<open>gz\<close> and the
  override is not true. Gzip is used: the staging file is opened in binary mode, the
  writer is bound to the gzip wrapper, and closing the streams puts the text written, as
  one gzip member, at the end of the staging file. Plain text is used: the staging file
  is opened in text mode, the writer is bound to it, and closing puts the text written
  at its end.
\<close>

theorem C7_transport_of_write_modes:
  assumes "mode = ''w'' \<or> mode = ''x''" and "\<not> (mode = ''x'' \<and> path_exists fs path)"
  shows "(gz = Some True \<or> (gz = None \<and> endswith (basename path) ''gz'') \<longrightarrow>
          (let st = \<lparr> o_mode = mode, o_path = path, o_temp_path = Some (path @ ''.partial''),
                      o_file_obj = Binary (path @ ''.partial''), o_gz = GzWrapper,
                      o_rw_obj = Writer (DumpWriter_init (OutStream []) ''--'' unique (IndentInt 4)) \<rparr>
           in DumpOpener_init fs path mode gz unique = (Inr st, open_truncate fs (path @ ''.partial''))
            \<and> (\<forall>w fs'. close_streams (st\<lparr>o_rw_obj := Writer w\<rparr>) fs' =
                  Inr (flush fs' (path @ ''.partial'') [GzipMember (written_text (Writer w))]))))
     \<and> (gz \<noteq> Some True \<and> \<not> endswith (basename path) ''gz'' \<longrightarrow>
          (let st = \<lparr> o_mode = mode, o_path = path, o_temp_path = Some (path @ ''.partial''),
                      o_file_obj = PlainText (path @ ''.partial''), o_gz = GzNone,
                      o_rw_obj = Writer (DumpWriter_init (OutStream []) ''--'' unique (IndentInt 4)) \<rparr>
           in DumpOpener_init fs path mode gz unique = (Inr st, open_truncate fs (path @ ''.partial''))
            \<and> (\<forall>w fs'. close_streams (st\<lparr>o_rw_obj := Writer w\<rparr>) fs' =
                  Inr (flush fs' (path @ ''.partial'') (text_segment (written_text (Writer w)))))))"
  unfolding open_write_create_result [OF assms] Let_def
  by (cases gz) (auto simp: close_streams_def use_gzip_def gz_name_def)

theorem C7_gz_suffix_witness:
  "(let st = \<lparr> o_mode = ''w'', o_path = ''/d/a.gz'', o_temp_path = Some (''/d/a.gz'' @ ''.partial''),
               o_file_obj = Binary (''/d/a.gz'' @ ''.partial''), o_gz = GzWrapper,
               o_rw_obj = Writer (DumpWriter_init (OutStream []) ''--'' True (IndentInt 4)
                                   :: nat DumpWriter) \<rparr>
    in DumpOpener_init Map.empty ''/d/a.gz'' ''w'' None True
         = (Inr st, open_truncate Map.empty (''/d/a.gz'' @ ''.partial''))
     \<and> (\<forall>w fs'. close_streams (st\<lparr>o_rw_obj := Writer w\<rparr>) fs' =
           Inr (flush fs' (''/d/a.gz'' @ ''.partial'') [GzipMember (written_text (Writer w))])))"
proof -
  have m: "''w'' = ''w'' \<or> ''w'' = ''x''" by simp
  have ne: "\<not> (''w'' = ''x'' \<and> path_exists Map.empty ''/d/a.gz'')" by simp
  have name: "None = Some True \<or> (None = (None :: bool option) \<and> endswith (basename ''/d/a.gz'') ''gz'')"
    by code_simp
  show ?thesis
    by (rule C7_transport_of_write_modes [OF m ne, THEN conjunct1, THEN mp, OF name])
qed

text \<open>
  The claim as stated fails when the file name ends in \<^verbatim>\<open>.gz\<close> and the override is false:
  the staging file is opened in text mode, not through gzip. (The writer is then bound to
  \<^verbatim>\<open>self.gz\<close>, which is \<^verbatim>\<open>True\<close>: closing the streams and every \<^verbatim>\<open>write\<close> raise
  \<^verbatim>\<open>AttributeError\<close>.)
\<close>

theorem C7_false_override_counterexample:
  "endswith (basename ''/d/a.gz'') ''.gz''
   \<and> fst (DumpOpener_init Map.empty ''/d/a.gz'' ''w'' (Some False) True) =
       Inr (\<lparr> o_mode = ''w'', o_path = ''/d/a.gz'', o_temp_path = Some ''/d/a.gz.partial'',
             o_file_obj = PlainText ''/d/a.gz.partial'', o_gz = GzBool True,
             o_rw_obj = Writer (DumpWriter_init (PyBool True) ''--'' True (IndentInt 4)) \<rparr>
            :: nat DumpOpener)
   \<and> close_streams
        (\<lparr> o_mode = ''w'', o_path = ''/d/a.gz'', o_temp_path = Some ''/d/a.gz.partial'',
             o_file_obj = PlainText ''/d/a.gz.partial'', o_gz = GzBool True,
             o_rw_obj = Writer (DumpWriter_init (PyBool True) ''--'' True (IndentInt 4)) \<rparr>
            :: nat DumpOpener)
        (Map.empty(''/d/a.gz.partial'' \<mapsto> [])) = Inl AttributeError
   \<and> fst (DumpWriter_write ref_library
            (DumpWriter_init (PyBool True) ''--'' True (IndentInt 4)) (JInt 1)) = Inl AttributeError"
proof -
  have m: "''w'' = ''w'' \<or> ''w'' = ''x''" by simp
  have ne: "\<not> (''w'' = ''x'' \<and> path_exists Map.empty ''/d/a.gz'')" by simp
  have name: "endswith (basename ''/d/a.gz'') ''.gz''" by code_simp
  have name2: "gz_name ''/d/a.gz''" unfolding gz_name_def using name by (rule endswith_dot_gz)
  have wr: "fst (DumpWriter_write ref_library
            (DumpWriter_init (PyBool True) ''--'' True (IndentInt 4)) (JInt 1)) = Inl AttributeError"
    by code_simp
  have init: "fst (DumpOpener_init Map.empty ''/d/a.gz'' ''w'' (Some False) True) =
       Inr (\<lparr> o_mode = ''w'', o_path = ''/d/a.gz'', o_temp_path = Some ''/d/a.gz.partial'',
             o_file_obj = PlainText ''/d/a.gz.partial'', o_gz = GzBool True,
             o_rw_obj = Writer (DumpWriter_init (PyBool True) ''--'' True (IndentInt 4)) \<rparr>
            :: nat DumpOpener)"
    using name2 by (simp add: open_write_create_result [OF m ne] use_gzip_def)
  have cl: "close_streams
        (\<lparr> o_mode = ''w'', o_path = ''/d/a.gz'', o_temp_path = Some ''/d/a.gz.partial'',
             o_file_obj = PlainText ''/d/a.gz.partial'', o_gz = GzBool True,
             o_rw_obj = Writer (DumpWriter_init (PyBool True) ''--'' True (IndentInt 4)) \<rparr>
            :: nat DumpOpener)
        (Map.empty(''/d/a.gz.partial'' \<mapsto> [])) = Inl AttributeError"
    by (simp add: close_streams_def)
  show ?thesis by (intro conjI name init cl wr)
qed

section \<open>C8: exclusive create\<close>

text \<open>
  Claim C8 says that an exclusive-create transaction raises the already-exists error at
  open time, before a staging file is made, when the final path exists, and raises the
  conflict error at close time, without removing the final path or renaming the staging
  file, when the final path exists then. The code does so but for the kind of the error
  in one case: opened with a false override on a file name ending in \<^verbatim>\<open>gz\<close>,
  \<^verbatim>\<open>self.gz\<close> is \<^verbatim>\<open>True\<close> and \<^verbatim>\<open>__exit__\<close> raises \<^verbatim>\<open>AttributeError\<close> at
  \<^verbatim>\<open>self.gz.close()\<close>. In every case the final path is left as it is, and the only file
  that changes is the staging file, which the closed stream is flushed to.
\<close>

theorem C8_exclusive_create_exit:
  "(path_exists fs path \<longrightarrow> DumpOpener_init fs path ''x'' gz unique = (Inl FileExistsError, fs))
   \<and> (DumpOpener_init fs path ''x'' gz unique = (Inr st, fs1) \<longrightarrow> path_exists fs' path \<longrightarrow>
        DumpOpener_exit (st\<lparr>o_rw_obj := rw\<rparr>) fs' =
          (if gz = Some False \<and> endswith (basename path) ''gz'' then (Inl AttributeError, fs')
           else (Inl FileExistsError,
                 flush fs' (path @ ''.partial'')
                   (if use_gzip path gz then [GzipMember (written_text rw)]
                    else text_segment (written_text rw))))
      \<and> snd (DumpOpener_exit (st\<lparr>o_rw_obj := rw\<rparr>) fs') path = fs' path)"
proof (intro conjI impI)
  assume "path_exists fs path"
  then show "DumpOpener_init fs path ''x'' gz unique = (Inl FileExistsError, fs)"
    by (simp add: DumpOpener_init_def open_write_create_def)
next
  assume init: "DumpOpener_init fs path ''x'' gz unique = (Inr st, fs1)"
    and ex: "path_exists fs' path"
  have ne: "\<not> (''x'' = ''x'' \<and> path_exists fs path)"
    using init by (auto simp: DumpOpener_init_def open_write_create_def)
  have wx: "''x'' = ''w'' \<or> ''x'' = ''x''" by simp
  have st: "st = \<lparr> o_mode = ''x'', o_path = path, o_temp_path = Some (path @ ''.partial''),
            o_file_obj = (if use_gzip path gz then Binary (path @ ''.partial'')
                          else PlainText (path @ ''.partial'')),
            o_gz = (if use_gzip path gz then GzWrapper
                    else if gz_name path then GzBool True else GzNone),
            o_rw_obj = Writer (DumpWriter_init
                         (if \<not> use_gzip path gz \<and> gz_name path then PyBool True else OutStream [])
                         ''--'' unique (IndentInt 4)) \<rparr>"
    using init unfolding open_write_create_result [OF wx ne] by simp
  have corner: "(\<not> use_gzip path gz \<and> gz_name path) = (gz = Some False \<and> endswith (basename path) ''gz'')"
    by (cases gz) (auto simp: use_gzip_def gz_name_def)
  have ex': "\<And>segs. path_exists (flush fs' (path @ ''.partial'') segs) path"
    using ex by (simp add: path_exists_def flush_def split: option.splits)
  show exit: "DumpOpener_exit (st\<lparr>o_rw_obj := rw\<rparr>) fs' =
          (if gz = Some False \<and> endswith (basename path) ''gz'' then (Inl AttributeError, fs')
           else (Inl FileExistsError,
                 flush fs' (path @ ''.partial'')
                   (if use_gzip path gz then [GzipMember (written_text rw)]
                    else text_segment (written_text rw))))"
    unfolding st DumpOpener_exit_def
    using corner ex' by (simp add: close_streams_write)
  show "snd (DumpOpener_exit (st\<lparr>o_rw_obj := rw\<rparr>) fs') path = fs' path"
    unfolding exit by (simp add: flush_def split: option.splits)
qed

text \<open>
  The failing input of C8: \<^verbatim>\<open>DumpOpener('/d/a.gz', mode='x', gz=False)\<close>, and the final path
  made by someone else before the block is left.
\<close>

theorem C8_false_override_witness:
  "DumpOpener_exit
     \<lparr> o_mode = ''x'', o_path = ''/d/a.gz'', o_temp_path = Some ''/d/a.gz.partial'',
       o_file_obj = PlainText ''/d/a.gz.partial'', o_gz = GzBool True,
       o_rw_obj = Writer (DumpWriter_init (PyBool True) ''--'' True (IndentInt 4) :: nat DumpWriter) \<rparr>
     (Map.empty(''/d/a.gz'' \<mapsto> [Text ''other''], ''/d/a.gz.partial'' \<mapsto> []))
   = (Inl AttributeError, Map.empty(''/d/a.gz'' \<mapsto> [Text ''other''], ''/d/a.gz.partial'' \<mapsto> []))"
proof -
  let ?st = "\<lparr> o_mode = ''x'', o_path = ''/d/a.gz'', o_temp_path = Some ''/d/a.gz.partial'',
       o_file_obj = PlainText ''/d/a.gz.partial'', o_gz = GzBool True,
       o_rw_obj = Writer (DumpWriter_init (PyBool True) ''--'' True (IndentInt 4) :: nat DumpWriter) \<rparr>"
  let ?fs = "Map.empty(''/d/a.gz'' \<mapsto> [Text ''other''], ''/d/a.gz.partial'' \<mapsto> [])"
  have m: "''x'' = ''w'' \<or> ''x'' = ''x''" by simp
  have ne: "\<not> (''x'' = ''x'' \<and> path_exists Map.empty ''/d/a.gz'')"
    by (simp add: path_exists_def)
  have name: "endswith (basename ''/d/a.gz'') ''gz''" by code_simp
  have init: "DumpOpener_init Map.empty ''/d/a.gz'' ''x'' (Some False) True
      = (Inr ?st, open_truncate Map.empty ''/d/a.gz.partial'')"
    using name by (simp add: open_write_create_result [OF m ne] use_gzip_def gz_name_def)
  have ex: "path_exists ?fs ''/d/a.gz''" by (simp add: path_exists_def)
  have "DumpOpener_exit (?st\<lparr>o_rw_obj := o_rw_obj ?st\<rparr>) ?fs = (Inl AttributeError, ?fs)"
    using C8_exclusive_create_exit [THEN conjunct2, rule_format, OF init ex, of "o_rw_obj ?st"] name
    by simp
  then show ?thesis by simp
qed

section \<open>C9: opening a path that does not exist\<close>

text \<open>
  Claim C9 says that read mode and append mode raise the not-found error on a path that
  does not exist, with or without an override, and that append mode never creates the
  file. The code does so in read mode, and in append mode without an override (the file
  is opened to read its first two bytes). In append mode with an override, nothing is
  opened for reading: \<^verbatim>\<open>io.open(path, mode='at')\<close> or \<^verbatim>\<open>gzip.open(path, mode='at')\<close> creates
  the file, and a writer is returned.
\<close>

theorem C9_append_with_override_creates_the_file:
  "DumpOpener_init (fs(path := None)) path ''a'' (Some b) unique =
     (Inr \<lparr> o_mode = ''a'', o_path = path, o_temp_path = None,
            o_file_obj = (if b then GzipText path else PlainText path), o_gz = GzNone,
            o_rw_obj = Writer (DumpWriter_init (OutStream []) ''--'' unique (IndentInt 4)) \<rparr>,
      fs(path \<mapsto> []))
   \<and> DumpOpener_init (fs(path := None)) path ''a'' None unique
       = (Inl FileNotFoundError, fs(path := None))
   \<and> DumpOpener_init (fs(path := None)) path ''r'' gz unique
       = (Inl FileNotFoundError, fs(path := None))"
  by (simp add: DumpOpener_init_def open_read_append_def open_append_def split: option.splits)

section \<open>C10: a chunk without content\<close>

text \<open>
  Claim C10. When the lines left of the input start with a separator line (the stream
  begins with one, or it follows the separator line read last), \<^verbatim>\<open>__next__\<close> hands the empty
  chunk to \<^verbatim>\<open>json.loads\<close> and raises its error; the seen-set and the count stay as they
  are. More generally this holds for the pull that reaches a chunk of whitespace, after
  skipping duplicates. It holds for every library whose \<^verbatim>\<open>json.loads\<close> rejects a text
  without content, as Python's does.
\<close>

theorem C10_blank_chunk_raises:
  assumes blank: "\<forall>s. py_strip s = [] \<longrightarrow> json_loads lib s = Inl JSONDecodeError"
  shows "(r_reader r = Suspended separator (Lines (line # rest)) \<longrightarrow>
          rstrip_crlf line = separator \<longrightarrow>
          DumpReader_next lib r =
            (Inl JSONDecodeError, r\<lparr>r_reader := Suspended separator (Lines rest)\<rparr>))
       \<and> (fst (reader_drain (r_reader r)) = skipped @ chunk # chunks \<longrightarrow>
          (\<forall>c\<in>set skipped. duplicate lib (r_seen r) c) \<longrightarrow>
          py_strip (concat chunk) = [] \<longrightarrow>
          DumpReader_next lib r =
            (Inl JSONDecodeError, r\<lparr>r_reader := advance (Suc (length skipped)) (r_reader r)\<rparr>))"
proof (intro conjI impI)
  assume "r_reader r = Suspended separator (Lines (line # rest))"
    and "rstrip_crlf line = separator"
  moreover have "json_loads lib [] = Inl JSONDecodeError"
    using blank by (simp add: py_strip_def)
  ultimately show "DumpReader_next lib r =
      (Inl JSONDecodeError, r\<lparr>r_reader := Suspended separator (Lines rest)\<rparr>)"
    by (simp add: DumpReader_next_def next_json_def reader_next_def)
next
  assume chunks: "fst (reader_drain (r_reader r)) = skipped @ chunk # chunks"
    and dups: "\<forall>c\<in>set skipped. duplicate lib (r_seen r) c"
    and ws: "py_strip (concat chunk) = []"
  from ws blank have fail: "json_loads lib (concat chunk) = Inl JSONDecodeError" by simp
  then have nd: "\<not> duplicate lib (r_seen r) chunk" by (rule duplicate_blank)
  have tw: "takeWhile (duplicate lib (r_seen r)) (skipped @ chunk # chunks) = skipped"
    using dups nd by (simp add: takeWhile_append2)
  have dw: "dropWhile (duplicate lib (r_seen r)) (skipped @ chunk # chunks) = chunk # chunks"
    using dups nd by (simp add: dropWhile_append2)
  show "DumpReader_next lib r =
      (Inl JSONDecodeError, r\<lparr>r_reader := advance (Suc (length skipped)) (r_reader r)\<rparr>)"
    unfolding DumpReader_next_pull_spec pull_spec_def Let_def chunks tw dw
    by (simp add: fail)
qed

theorem C10_leading_separator_witness:
  "DumpReader_next ref_library (DumpReader_init (Lines [''--\<newline>'', ''1\<newline>'', ''--\<newline>'']) ''--'' True False)
     = (Inl JSONDecodeError,
        \<lparr> r_reader = Suspended ''--'' (Lines [''1\<newline>'', ''--\<newline>'']), r_obj_num = 0, r_close = False,
          r_seen = Some {} \<rparr>)"
proof -
  have blank: "\<forall>s. py_strip s = [] \<longrightarrow> json_loads ref_library s = Inl JSONDecodeError"
    by (simp add: ref_library_def ref_loads_blank)
  show ?thesis
    using C10_blank_chunk_raises [OF blank,
        of "DumpReader_init (Lines [''--\<newline>'', ''1\<newline>'', ''--\<newline>'']) ''--'' True False"
           "''--''" "''--\<newline>''" "[''1\<newline>'', ''--\<newline>'']"]
    by (simp add: DumpReader_init_def reader_def rstrip_crlf_def)
qed

end
